theory Spec2Isabelle
  imports Main "HOL-Library.AList" "HOL-Library.Sublist"
begin

text \<open>
  The workflow state machine of CEOpenOrchestrator: the signal store, the workflow state
  store, the review classifier, the phase engine, the branch sessions and the refine and
  compound requests of the orchestrator, as functions on an explicit world made of a file
  system, a clock and the current git branch.
\<close>

section \<open>Core types (types.ts)\<close>

datatype Phase = Init | Planning | Implementing | Reviewing | Refining | Compounding | Complete

datatype ReviewStatus = PASS | PASS_WITH_WARNINGS | FAIL | PENDING

text \<open>
  A JavaScript object of type \<open>Record<string, boolean>\<close> is an association list of its
  own properties. A property read such as \<open>signals.review\<close> is used as a condition only,
  so what matters is whether the value is truthy.
\<close>

type_synonym SignalSet = "(string \<times> bool) list"

record WorkflowState =
  phase :: Phase
  iteration :: int
  featureName :: "string option"
  branchName :: "string option"
  commitCount :: int
  signals :: SignalSet
  lastUpdated :: string

text \<open>
  \<open>iteration\<close> and \<open>commitCount\<close> are JavaScript numbers. The model has the integers among
  them: a state whose iteration is no integer (a fraction, \<open>NaN\<close>, or a field that is
  missing) is not a value of the record.
\<close>

record TimelineEvent =
  timestamp :: string
  ev_type :: string
  message :: string
  data :: "(string \<times> string) list"

definition WORKFLOW_DIR :: string where "WORKFLOW_DIR = ''.workflow''"
definition SIGNALS_DIR :: string where "SIGNALS_DIR = ''signals''"
definition SESSIONS_DIR :: string where "SESSIONS_DIR = ''sessions''"
definition STATE_FILE :: string where "STATE_FILE = ''state.json''"
definition REVIEW_FILE :: string where "REVIEW_FILE = ''REVIEW.md''"
definition TIMELINE_FILE :: string where "TIMELINE_FILE = ''timeline.json''"

section \<open>JavaScript numbers, strings and objects\<close>

text \<open>
  \<open>x++\<close> on a number that is an integer. A number is an IEEE double: the sum is rounded
  to the nearest double, a tie going to the even significand. Up to \<open>2^53\<close> in size every
  integer is a double and the sum is exact; between \<open>2^53\<close> and \<open>2^54\<close> the doubles are
  the even integers and the sum lies half way between two of them; from \<open>2^54\<close> on the
  number stays what it is. \<open>Number.MIN_SAFE_INTEGER\<close> and \<open>Number.MAX_SAFE_INTEGER\<close> bound
  the integers on which the arithmetic of doubles is that of the integers.
\<close>

definition MIN_SAFE_INTEGER :: int where "MIN_SAFE_INTEGER = - 9007199254740991"

definition MAX_SAFE_INTEGER :: int where "MAX_SAFE_INTEGER = 9007199254740991"

definition js_increment :: "int \<Rightarrow> int" where
  "js_increment n =
     (if - 9007199254740992 \<le> n \<and> n < 9007199254740992 then n + 1
      else if - 18014398509481984 < n \<and> n < 18014398509481984
      then (if even (n div 2) then n else n + 2)
      else n)"

text \<open>\<open>s.includes(p)\<close>, \<open>s.endsWith(p)\<close> and \<open>s.replace(p, r)\<close> with a string pattern,
  which replaces the first occurrence only.\<close>

fun str_includes :: "string \<Rightarrow> string \<Rightarrow> bool" where
  "str_includes [] p = (p = [])"
| "str_includes (c # cs) p = (prefix p (c # cs) \<or> str_includes cs p)"

definition endsWith :: "string \<Rightarrow> string \<Rightarrow> bool" where
  "endsWith s p = prefix (rev p) (rev s)"

fun replace_first :: "string \<Rightarrow> string \<Rightarrow> string \<Rightarrow> string" where
  "replace_first [] p r = (if p = [] then r else [])"
| "replace_first (c # cs) p r =
     (if prefix p (c # cs) then r @ drop (length p) (c # cs) else c # replace_first cs p r)"

text \<open>\<open>obj[k]\<close> as a condition.\<close>

definition truthy :: "SignalSet \<Rightarrow> string \<Rightarrow> bool" where
  "truthy obj k = (map_of obj k = Some True)"

text \<open>\<open>obj[k] = v\<close> on an object created by the literal \<open>{}\<close>: the key \<open>__proto__\<close> is the
  accessor of the prototype, which ignores a boolean, so no own property appears.\<close>

definition obj_set :: "string \<Rightarrow> bool \<Rightarrow> SignalSet \<Rightarrow> SignalSet" where
  "obj_set k v obj = (if k = ''__proto__'' then obj else AList.update k v obj)"

section \<open>The file system, the clock and git\<close>

text \<open>
  A path is the list of its components below the root. A regular file holds a text or a
  JSON document. A document is kept as the value it denotes, so that \<open>JSON.stringify\<close>
  builds a document, and \<open>JSON.parse\<close> succeeds on a document and throws on a text:
  \<open>Text\<close> stands for content that is no JSON value, and for every file that is only read
  as text. The text of a document, which only a reader of plain text would see, is the
  \<open>json_text\<close> of the world and is left arbitrary. \<open>Unreadable\<close> is a regular file that
  cannot be opened. The clock does not advance during a call.
\<close>

type_synonym path = "string list"

datatype content = Text string | StateJson WorkflowState | TimelineJson "TimelineEvent list"

datatype node = File content | Unreadable | Dir

datatype io_error = ENOENT | ENOTDIR | EISDIR | EACCES | EEXIST | SyntaxError | TypeError

record world =
  cwd :: path
  files :: "(path \<times> node) list"
  clock :: string
  git_branch :: string
  json_text :: "content \<Rightarrow> string"

text \<open>POSIX \<open>path.join\<close>: the parts are split at \<open>/\<close>, empty and \<open>.\<close> segments vanish and
  \<open>..\<close> drops the component before it.\<close>

fun segments :: "string \<Rightarrow> string list" where
  "segments [] = [[]]"
| "segments (c # cs) =
     (if c = CHR ''/'' then [] # segments cs
      else (case segments cs of [] \<Rightarrow> [[c]] | s # ss \<Rightarrow> (c # s) # ss))"

fun normalize_onto :: "path \<Rightarrow> string list \<Rightarrow> path" where
  "normalize_onto acc [] = acc"
| "normalize_onto acc (s # ss) =
     (if s = [] \<or> s = ''.'' then normalize_onto acc ss
      else if s = ''..'' then normalize_onto (butlast acc) ss
      else normalize_onto (acc @ [s]) ss)"

definition join :: "path \<Rightarrow> string list \<Rightarrow> path" where
  "join base parts = normalize_onto base (concat (map segments parts))"

definition node_at :: "world \<Rightarrow> path \<Rightarrow> node option" where
  "node_at w p = (if p = [] then Some Dir else map_of (files w) p)"

definition children :: "world \<Rightarrow> path \<Rightarrow> string list" where
  "children w d = map (\<lambda>e. last (fst e)) (filter (\<lambda>e. fst e \<noteq> [] \<and> butlast (fst e) = d) (files w))"

definition existsSync :: "world \<Rightarrow> path \<Rightarrow> bool" where
  "existsSync w p = (node_at w p \<noteq> None)"

definition readFileSync :: "world \<Rightarrow> path \<Rightarrow> io_error + content" where
  "readFileSync w p =
     (case node_at w p of
        None \<Rightarrow> Inl ENOENT
      | Some Dir \<Rightarrow> Inl EISDIR
      | Some Unreadable \<Rightarrow> Inl EACCES
      | Some (File c) \<Rightarrow> Inr c)"

definition utf8 :: "world \<Rightarrow> content \<Rightarrow> string" where
  "utf8 w c = (case c of Text t \<Rightarrow> t | _ \<Rightarrow> json_text w c)"

definition readdirSync :: "world \<Rightarrow> path \<Rightarrow> io_error + string list" where
  "readdirSync w p =
     (case node_at w p of
        None \<Rightarrow> Inl ENOENT
      | Some Dir \<Rightarrow> Inr (children w p)
      | Some _ \<Rightarrow> Inl ENOTDIR)"

definition writeFileSync :: "world \<Rightarrow> path \<Rightarrow> content \<Rightarrow> io_error + world" where
  "writeFileSync w p c =
     (case node_at w (butlast p) of
        None \<Rightarrow> Inl ENOENT
      | Some Dir \<Rightarrow>
          (case node_at w p of
             Some Dir \<Rightarrow> Inl EISDIR
           | Some Unreadable \<Rightarrow> Inl EACCES
           | _ \<Rightarrow> Inr (w\<lparr>files := AList.update p (File c) (files w)\<rparr>))
      | Some _ \<Rightarrow> Inl ENOTDIR)"

definition unlinkSync :: "world \<Rightarrow> path \<Rightarrow> io_error + world" where
  "unlinkSync w p =
     (case node_at w p of
        None \<Rightarrow> Inl ENOENT
      | Some Dir \<Rightarrow> Inl EISDIR
      | Some _ \<Rightarrow> Inr (w\<lparr>files := AList.delete p (files w)\<rparr>))"

text \<open>\<open>mkdirSync(p, {recursive: true})\<close>: every missing directory on the way is created; a
  component that exists and is no directory makes the call fail.\<close>

fun mkdirs :: "world \<Rightarrow> path \<Rightarrow> string list \<Rightarrow> io_error + world" where
  "mkdirs w base [] = Inr w"
| "mkdirs w base (c # cs) =
     (case node_at w (base @ [c]) of
        None \<Rightarrow> mkdirs (w\<lparr>files := AList.update (base @ [c]) Dir (files w)\<rparr>) (base @ [c]) cs
      | Some Dir \<Rightarrow> mkdirs w (base @ [c]) cs
      | Some _ \<Rightarrow> Inl (if cs = [] then EEXIST else ENOTDIR))"

definition mkdirSync_recursive :: "world \<Rightarrow> path \<Rightarrow> io_error + world" where
  "mkdirSync_recursive w p = mkdirs w [] p"

text \<open>
  A call that changes the world returns the world it leaves and either the exception it
  threw or its value. A primitive changes nothing when it throws.
\<close>

type_synonym 'a result = "world \<times> (io_error + 'a)"

definition prim :: "world \<Rightarrow> io_error + world \<Rightarrow> unit result" where
  "prim w r = (case r of Inl e \<Rightarrow> (w, Inl e) | Inr w' \<Rightarrow> (w', Inr ()))"

definition and_then :: "'a result \<Rightarrow> ('a \<Rightarrow> world \<Rightarrow> 'b result) \<Rightarrow> 'b result" where
  "and_then r f = (case r of (w, Inl e) \<Rightarrow> (w, Inl e) | (w, Inr x) \<Rightarrow> f x w)"

section \<open>State machine and signal management (state.ts)\<close>

definition workflowPath :: "world \<Rightarrow> string list \<Rightarrow> path" where
  "workflowPath w parts = join (cwd w) (WORKFLOW_DIR # parts)"

definition getInitialState :: "world \<Rightarrow> WorkflowState" where
  "getInitialState w =
     \<lparr>phase = Init, iteration = 1, featureName = None, branchName = None,
      commitCount = 0, signals = [], lastUpdated = clock w\<rparr>"

text \<open>\<open>JSON.parse(content) as WorkflowState\<close>. The cast is unchecked: on a JSON document
  of another shape the code goes on with that value. \<open>WorkflowState\<close> has no such value,
  and the model, which rejects the document here, does not cover a state file or a
  snapshot that holds one. The statements below that read a state file through
  \<open>JSON.parse\<close> are about files that are missing, unreadable, no JSON, or a workflow state.\<close>

definition parse_state :: "content \<Rightarrow> io_error + WorkflowState" where
  "parse_state c = (case c of StateJson s \<Rightarrow> Inr s | _ \<Rightarrow> Inl SyntaxError)"

definition loadState :: "world \<Rightarrow> io_error + WorkflowState" where
  "loadState w =
     (let statePath = workflowPath w [STATE_FILE] in
      if \<not> existsSync w statePath then Inr (getInitialState w)
      else (case readFileSync w statePath of
              Inl e \<Rightarrow> Inr (getInitialState w)
            | Inr content \<Rightarrow>
                (case parse_state content of
                   Inl e \<Rightarrow> Inr (getInitialState w)
                 | Inr s \<Rightarrow> Inr s)))"

text \<open>\<open>saveState\<close> writes the record to a temporary file, copies the content of that file
  over the state file with a second write, and removes the temporary file. What a reader
  running at the same time may see between or within these writes lies outside a
  sequential model (claim C8).\<close>

definition tmp_of :: "path \<Rightarrow> path" where
  "tmp_of p = butlast p @ [last p @ ''.tmp'']"

definition saveState :: "world \<Rightarrow> WorkflowState \<Rightarrow> unit result" where
  "saveState w state =
     (let statePath = workflowPath w [STATE_FILE];
          signalsDir = workflowPath w [SIGNALS_DIR]
      in and_then (if \<not> existsSync w signalsDir then prim w (mkdirSync_recursive w signalsDir)
                   else (w, Inr ()))
          (\<lambda>_ w1.
             let updatedState = state\<lparr>lastUpdated := clock w1\<rparr>;
                 tempPath = tmp_of statePath
             in and_then (prim w1 (writeFileSync w1 tempPath (StateJson updatedState)))
                 (\<lambda>_ w2. and_then (w2, readFileSync w2 tempPath)
                   (\<lambda>buf w3. and_then (prim w3 (writeFileSync w3 statePath buf))
                     (\<lambda>_ w4. (case unlinkSync w4 tempPath of
                                 Inl e \<Rightarrow> (w4, Inr ())
                               | Inr w5 \<Rightarrow> (w5, Inr ())))))))"

definition getSignals :: "world \<Rightarrow> io_error + SignalSet" where
  "getSignals w =
     (let signalsDir = workflowPath w [SIGNALS_DIR] in
      if \<not> existsSync w signalsDir then Inr []
      else (case readdirSync w signalsDir of
              Inl e \<Rightarrow> Inr []
            | Inr fs \<Rightarrow>
                Inr (foldl (\<lambda>sigs file.
                       if endsWith file ''.done''
                       then obj_set (replace_first file ''.done'' []) True sigs
                       else sigs) [] fs)))"

definition createSignal :: "world \<Rightarrow> string \<Rightarrow> unit result" where
  "createSignal w name =
     (let signalsDir = workflowPath w [SIGNALS_DIR] in
      and_then (if \<not> existsSync w signalsDir then prim w (mkdirSync_recursive w signalsDir)
                else (w, Inr ()))
        (\<lambda>_ w1. prim w1 (writeFileSync w1 (join signalsDir [name @ ''.done'']) (Text (clock w1)))))"

text \<open>The loop of \<open>clearAllSignals\<close>: the first \<open>unlinkSync\<close> that throws ends it.\<close>

fun unlink_done :: "world \<Rightarrow> path \<Rightarrow> string list \<Rightarrow> unit result" where
  "unlink_done w d [] = (w, Inr ())"
| "unlink_done w d (file # fs) =
     (if endsWith file ''.done''
      then (case unlinkSync w (join d [file]) of
              Inl e \<Rightarrow> (w, Inl e)
            | Inr w' \<Rightarrow> unlink_done w' d fs)
      else unlink_done w d fs)"

definition clearAllSignals :: "world \<Rightarrow> unit result" where
  "clearAllSignals w =
     (let signalsDir = workflowPath w [SIGNALS_DIR] in
      if \<not> existsSync w signalsDir then (w, Inr ())
      else (case readdirSync w signalsDir of
              Inl e \<Rightarrow> (w, Inr ())
            | Inr fs \<Rightarrow> (fst (unlink_done w signalsDir fs), Inr ())))"

definition getReviewStatus :: "world \<Rightarrow> io_error + ReviewStatus" where
  "getReviewStatus w =
     (let reviewPath = workflowPath w [REVIEW_FILE] in
      if \<not> existsSync w reviewPath then Inr PENDING
      else (case getSignals w of
              Inl e \<Rightarrow> Inl e
            | Inr sigs \<Rightarrow>
                if \<not> truthy sigs ''review'' then Inr PENDING
                else (case readFileSync w reviewPath of
                        Inl e \<Rightarrow> Inr PENDING
                      | Inr c \<Rightarrow>
                          (let content = utf8 w c in
                           if str_includes content ''STATUS: PASS''
                           then (if str_includes content ''PASS_WITH_WARNINGS'' \<or>
                                    (str_includes content ''Warnings'' \<and> str_includes content ''Non-blocking'')
                                 then Inr PASS_WITH_WARNINGS
                                 else Inr PASS)
                           else if str_includes content ''STATUS: FAIL'' then Inr FAIL
                           else Inr PENDING))))"

definition determinePhase :: "world \<Rightarrow> SignalSet \<Rightarrow> io_error + Phase" where
  "determinePhase w sigs =
     (if truthy sigs ''compound'' \<or> truthy sigs ''pr'' then Inr Complete
      else (case getReviewStatus w of
              Inl e \<Rightarrow> Inl e
            | Inr reviewStatus \<Rightarrow>
                if truthy sigs ''compound'' then Inr Compounding
                else if truthy sigs ''review'' \<and>
                        (reviewStatus = PASS \<or> reviewStatus = PASS_WITH_WARNINGS)
                then Inr Compounding
                else (let refineSignals = [''backend-refine'', ''frontend-refine'', ''tests-refine''];
                          allRefinesDone = list_all (\<lambda>s. truthy sigs s) refineSignals
                      in if truthy sigs ''review'' \<and> reviewStatus = FAIL
                         then (if allRefinesDone then Inr Reviewing else Inr Refining)
                         else if truthy sigs ''backend'' \<and> truthy sigs ''frontend'' \<and>
                                 truthy sigs ''tests''
                         then Inr Reviewing
                         else if truthy sigs ''plan'' \<or> existsSync w (workflowPath w [''PLAN.md''])
                         then (if truthy sigs ''plan'' then Inr Implementing else Inr Planning)
                         else Inr Init)))"

definition updateStateFromSignals :: "world \<Rightarrow> WorkflowState result" where
  "updateStateFromSignals w =
     and_then (w, loadState w)
       (\<lambda>state w. and_then (w, getSignals w)
         (\<lambda>sigs w. and_then (w, determinePhase w sigs)
           (\<lambda>newPhase w.
              let state1 = (if newPhase \<noteq> phase state then state\<lparr>phase := newPhase\<rparr> else state);
                  state2 = state1\<lparr>signals := sigs\<rparr>
              in and_then (saveState w state2) (\<lambda>_ w'. (w', Inr state2)))))"

text \<open>Session management for branch-based workflow isolation.\<close>

definition getBranchSessionPath :: "world \<Rightarrow> string \<Rightarrow> path" where
  "getBranchSessionPath w branch = workflowPath w [SESSIONS_DIR, branch]"

fun write_markers :: "world \<Rightarrow> path \<Rightarrow> string list \<Rightarrow> unit result" where
  "write_markers w d [] = (w, Inr ())"
| "write_markers w d (signalName # ns) =
     (case writeFileSync w (join d [signalName @ ''.done'']) (Text (clock w)) of
        Inl e \<Rightarrow> (w, Inl e)
      | Inr w' \<Rightarrow> write_markers w' d ns)"

definition saveSessionToBranch :: "world \<Rightarrow> string \<Rightarrow> unit result" where
  "saveSessionToBranch w branch =
     and_then (w, loadState w)
       (\<lambda>currentState w.
          let sessionPath = getBranchSessionPath w branch in
          and_then (if \<not> existsSync w sessionPath then prim w (mkdirSync_recursive w sessionPath)
                    else (w, Inr ()))
            (\<lambda>_ w.
               let branchStatePath = join sessionPath [STATE_FILE];
                   stateWithBranch = currentState\<lparr>branchName := Some branch, lastUpdated := clock w\<rparr>
               in and_then (prim w (writeFileSync w branchStatePath (StateJson stateWithBranch)))
                   (\<lambda>_ w. and_then (w, getSignals w)
                     (\<lambda>currentSignals w.
                        if length (map fst currentSignals) > 0
                        then (let signalsPath = join sessionPath [SIGNALS_DIR] in
                              and_then (if \<not> existsSync w signalsPath
                                        then prim w (mkdirSync_recursive w signalsPath)
                                        else (w, Inr ()))
                                (\<lambda>_ w. write_markers w signalsPath (map fst currentSignals)))
                        else (w, Inr ())))))"

fun restore_signals :: "world \<Rightarrow> string list \<Rightarrow> unit result" where
  "restore_signals w [] = (w, Inr ())"
| "restore_signals w (file # fs) =
     (if endsWith file ''.done''
      then (case createSignal w (replace_first file ''.done'' []) of
              (w', Inl e) \<Rightarrow> (w', Inl e)
            | (w', Inr _) \<Rightarrow> restore_signals w' fs)
      else restore_signals w fs)"

definition loadSessionFromBranch :: "world \<Rightarrow> string \<Rightarrow> WorkflowState option result" where
  "loadSessionFromBranch w branch =
     (let sessionPath = getBranchSessionPath w branch;
          branchStatePath = join sessionPath [STATE_FILE]
      in if \<not> existsSync w branchStatePath then (w, Inr None)
         else (case readFileSync w branchStatePath of
                 Inl e \<Rightarrow> (w, Inr None)
               | Inr content \<Rightarrow>
                   (case parse_state content of
                      Inl e \<Rightarrow> (w, Inr None)
                    | Inr branchState \<Rightarrow>
                        (case saveState w branchState of
                           (w1, Inl e) \<Rightarrow> (w1, Inr None)
                         | (w1, Inr _) \<Rightarrow>
                             (let signalsPath = join sessionPath [SIGNALS_DIR] in
                              if existsSync w1 signalsPath
                              then (case clearAllSignals w1 of
                                      (w2, Inl e) \<Rightarrow> (w2, Inr None)
                                    | (w2, Inr _) \<Rightarrow>
                                        (case readdirSync w2 signalsPath of
                                           Inl e \<Rightarrow> (w2, Inr (Some branchState))
                                         | Inr signalFiles \<Rightarrow>
                                             (fst (restore_signals w2 signalFiles),
                                              Inr (Some branchState))))
                              else (w1, Inr (Some branchState)))))))"

section \<open>Timeline (timeline.ts)\<close>

definition getCurrentBranch :: "world \<Rightarrow> string" where
  "getCurrentBranch w = git_branch w"

definition getSessionsDir :: "world \<Rightarrow> path" where
  "getSessionsDir w = join (cwd w) [WORKFLOW_DIR, SESSIONS_DIR]"

text \<open>\<open>branch.replace(/[/\\]/g, "-")\<close>.\<close>

definition sanitized :: "string \<Rightarrow> string" where
  "sanitized branch = map (\<lambda>c. if c = CHR ''/'' \<or> c = CHR 0x5C then CHR ''-'' else c) branch"

definition getBranchDir :: "world \<Rightarrow> string \<Rightarrow> path" where
  "getBranchDir w branch = join (getSessionsDir w) [sanitized branch]"

definition getTimelinePath :: "world \<Rightarrow> string option \<Rightarrow> path" where
  "getTimelinePath w branch =
     (let targetBranch = (case branch of
                            None \<Rightarrow> getCurrentBranch w
                          | Some b \<Rightarrow> if b \<noteq> [] then b else getCurrentBranch w)
      in join (getBranchDir w targetBranch) [TIMELINE_FILE])"

text \<open>\<open>loadTimeline\<close> returns what \<open>JSON.parse\<close> gave: the events, or a value that is no
  array when the file holds another document.\<close>

datatype parsed = Events "TimelineEvent list" | NoArray

definition loadTimeline :: "world \<Rightarrow> string option \<Rightarrow> parsed" where
  "loadTimeline w branch =
     (let timelinePath = getTimelinePath w branch in
      if \<not> existsSync w timelinePath then Events []
      else (case readFileSync w timelinePath of
              Inl e \<Rightarrow> Events []
            | Inr (Text t) \<Rightarrow> Events []
            | Inr (TimelineJson es) \<Rightarrow> Events es
            | Inr (StateJson s) \<Rightarrow> NoArray))"

definition saveTimeline :: "world \<Rightarrow> TimelineEvent list \<Rightarrow> string option \<Rightarrow> unit result" where
  "saveTimeline w events branch =
     (let timelinePath = getTimelinePath w branch;
          dir = join timelinePath [''..'']
      in and_then (if \<not> existsSync w dir then prim w (mkdirSync_recursive w dir) else (w, Inr ()))
           (\<lambda>_ w1. prim w1 (writeFileSync w1 timelinePath (TimelineJson events))))"

definition addTimelineEvent :: "world \<Rightarrow> string \<Rightarrow> string \<Rightarrow> (string \<times> string) list \<Rightarrow> unit result" where
  "addTimelineEvent w type msg dat =
     (let branch = getCurrentBranch w;
          event = \<lparr>timestamp = clock w, ev_type = type, message = msg, data = dat\<rparr>
      in case loadTimeline w (Some branch) of
           NoArray \<Rightarrow> (w, Inl TypeError)
         | Events events \<Rightarrow> saveTimeline w (events @ [event]) (Some branch))"

text \<open>\<open>logPhaseChange(phase)\<close>: the iteration is not passed and does not reach the file.\<close>

definition logPhaseChange :: "world \<Rightarrow> string \<Rightarrow> unit result" where
  "logPhaseChange w ph =
     addTimelineEvent w ''phase_change'' (''Phase changed to: '' @ ph) [(''phase'', ph)]"

section \<open>Command handlers of the orchestrator\<close>

text \<open>
  \<open>dispatchAllWorkers\<close> sets timers that send keystrokes to tmux windows after the
  handler has gone on; console output and \<open>sleep\<close> touch nothing either. A handler
  changes the state object it was given in place, so it returns the world, that object
  and the exception, if any, that ended it.
\<close>

definition dispatchAllWorkers :: "world \<Rightarrow> bool \<Rightarrow> world" where
  "dispatchAllWorkers w isRefine = w"

definition handleDispatchRefine ::
  "world \<Rightarrow> WorkflowState \<Rightarrow> world \<times> WorkflowState \<times> (io_error + unit)" where
  "handleDispatchRefine w state =
     (case getReviewStatus w of
        Inl e \<Rightarrow> (w, state, Inl e)
      | Inr reviewStatus \<Rightarrow>
          if reviewStatus \<noteq> FAIL then (w, state, Inr ())
          else if iteration state \<ge> 3 then (w, state, Inr ())
          else (let state1 = state\<lparr>iteration := js_increment (iteration state)\<rparr>;
                    w1 = dispatchAllWorkers w True
                in case logPhaseChange w1 ''refining'' of
                     (w2, Inl e) \<Rightarrow> (w2, state1, Inl e)
                   | (w2, Inr _) \<Rightarrow>
                       (let state2 = state1\<lparr>phase := Refining\<rparr>
                        in case saveState w2 state2 of (w3, r) \<Rightarrow> (w3, state2, r))))"

definition handleDispatchCompound ::
  "world \<Rightarrow> WorkflowState \<Rightarrow> world \<times> WorkflowState \<times> (io_error + unit)" where
  "handleDispatchCompound w state =
     (case getReviewStatus w of
        Inl e \<Rightarrow> (w, state, Inl e)
      | Inr reviewStatus \<Rightarrow>
          if reviewStatus \<noteq> PASS \<and> reviewStatus \<noteq> PASS_WITH_WARNINGS then (w, state, Inr ())
          else (case createSignal w ''compound'' of
                  (w1, Inl e) \<Rightarrow> (w1, state, Inl e)
                | (w1, Inr _) \<Rightarrow>
                    (case logPhaseChange w1 ''compounding'' of
                       (w2, Inl e) \<Rightarrow> (w2, state, Inl e)
                     | (w2, Inr _) \<Rightarrow>
                         (let state1 = state\<lparr>phase := Compounding\<rparr>
                          in case saveState w2 state1 of (w3, r) \<Rightarrow> (w3, state1, r)))))"

section \<open>Frames\<close>

text \<open>\<open>keeps T w w'\<close>: the world \<open>w'\<close> differs from \<open>w\<close> at most in the entries at the
  paths of \<open>T\<close>; the clock, the branch and the working directory are the same.\<close>

definition keeps :: "path set \<Rightarrow> world \<Rightarrow> world \<Rightarrow> bool" where
  "keeps T w w' \<longleftrightarrow>
     cwd w' = cwd w \<and> clock w' = clock w \<and> git_branch w' = git_branch w \<and>
     json_text w' = json_text w \<and>
     (\<forall>q. q \<notin> T \<longrightarrow> node_at w' q = node_at w q) \<and>
     (\<forall>d. (\<forall>q\<in>T. q = [] \<or> butlast q \<noteq> d) \<longrightarrow> children w' d = children w d)"

text \<open>A well-formed file system: every entry lies in a directory.\<close>

definition wf_world :: "world \<Rightarrow> bool" where
  "wf_world w = list_all (\<lambda>e. fst e \<noteq> [] \<and> node_at w (butlast (fst e)) = Some Dir) (files w)"

text \<open>The paths that \<open>saveState\<close> may touch: the missing directories down to the signals
  directory, the temporary file and the state file.\<close>

definition SaveT :: "world \<Rightarrow> path set" where
  "SaveT w = {q. prefix q (cwd w @ [''.workflow'', ''signals'']) \<and> node_at w q = None} \<union>
             {cwd w @ [''.workflow'', ''state.json.tmp''], cwd w @ [''.workflow'', ''state.json'']}"

text \<open>The paths that \<open>addTimelineEvent\<close> may touch: the missing directories down to the
  directory of the branch, and the timeline file in it.\<close>

definition TimelineT :: "world \<Rightarrow> path set" where
  "TimelineT w = {q. prefix q (getBranchDir w (git_branch w)) \<and> node_at w q = None} \<union>
                 {getBranchDir w (git_branch w) @ [''timeline.json'']}"

section \<open>Notions used in the statements\<close>

text \<open>Whether the review signal is set on disk, and the text of the review artifact, as
  \<open>getReviewStatus\<close> reads them.\<close>

definition reviewSignalPresent :: "world \<Rightarrow> bool" where
  "reviewSignalPresent w = (case getSignals w of Inr sigs \<Rightarrow> truthy sigs ''review'' | Inl e \<Rightarrow> False)"

definition reviewArtifactText :: "world \<Rightarrow> io_error + string" where
  "reviewArtifactText w =
     (case readFileSync w (workflowPath w [REVIEW_FILE]) of Inl e \<Rightarrow> Inl e | Inr c \<Rightarrow> Inr (utf8 w c))"

text \<open>The classification of a review text in the words of the specification (section 4.2): a
  pass indicator with a warnings marker, else a pass indicator, else a fail indicator, else
  pending.\<close>

definition classifyReview :: "string \<Rightarrow> ReviewStatus" where
  "classifyReview t =
     (if str_includes t ''STATUS: PASS'' \<and>
         (str_includes t ''PASS_WITH_WARNINGS'' \<or>
          (str_includes t ''Warnings'' \<and> str_includes t ''Non-blocking''))
      then PASS_WITH_WARNINGS
      else if str_includes t ''STATUS: PASS'' then PASS
      else if str_includes t ''STATUS: FAIL'' then FAIL
      else PENDING)"

text \<open>The phase and the signals of the persisted workflow state, and the phase that
  \<open>determinePhase\<close> derives from the signals now on disk.\<close>

definition persisted_phase :: "world \<Rightarrow> io_error + Phase" where
  "persisted_phase w = (case loadState w of Inl e \<Rightarrow> Inl e | Inr st \<Rightarrow> Inr (phase st))"

definition persisted_signals :: "world \<Rightarrow> io_error + SignalSet" where
  "persisted_signals w = (case loadState w of Inl e \<Rightarrow> Inl e | Inr st \<Rightarrow> Inr (signals st))"

definition derived_phase :: "world \<Rightarrow> io_error + Phase" where
  "derived_phase w = (case getSignals w of Inl e \<Rightarrow> Inl e | Inr sigs \<Rightarrow> determinePhase w sigs)"

section \<open>Example projects\<close>

text \<open>A project directory \<open>/proj\<close> with an empty signals directory, to which entries are added.\<close>

definition project_files :: "(path \<times> node) list" where
  "project_files = [([''proj''], Dir), ([''proj'', ''.workflow''], Dir),
                    ([''proj'', ''.workflow'', ''signals''], Dir)]"

definition marker :: "string \<Rightarrow> path \<times> node" where
  "marker name = ([''proj'', ''.workflow'', ''signals'', name @ ''.done''], File (Text ''2026-02-10T14:30:00.000Z''))"

definition review_md :: "string \<Rightarrow> path \<times> node" where
  "review_md text = ([''proj'', ''.workflow'', ''REVIEW.md''], File (Text text))"

definition project :: "(path \<times> node) list \<Rightarrow> world" where
  "project fs = \<lparr>cwd = [''proj''], files = project_files @ fs, clock = ''2026-02-10T15:00:00.000Z'',
                 git_branch = ''main'', json_text = (\<lambda>_. [])\<rparr>"

text \<open>The race of the specification: the compound signal next to a failed review.\<close>

definition race_world :: world where
  "race_world = project [marker ''compound'', marker ''backend'', marker ''frontend'', marker ''tests'',
                         marker ''review'', review_md ''STATUS: FAIL'']"

definition race_signals :: SignalSet where
  "race_signals = [(''compound'', True), (''backend'', True), (''frontend'', True),
                   (''tests'', True), (''review'', True)]"

text \<open>A failed review, and a review passed with warnings.\<close>

definition failed_review_world :: world where
  "failed_review_world = project [marker ''review'', review_md ''STATUS: FAIL'']"

definition warned_review_world :: world where
  "warned_review_world = project [marker ''review'', review_md ''STATUS: PASS_WITH_WARNINGS'']"

text \<open>The second refine round: the review has failed again, the refine signals of the first
  round are still set. \<open>second_round_after\<close> is the project after the refine request.\<close>

definition second_round_world :: world where
  "second_round_world =
     project [marker ''review'', marker ''backend-refine'', marker ''frontend-refine'',
              marker ''tests-refine'', review_md ''STATUS: FAIL'']"

definition second_round_state :: WorkflowState where
  "second_round_state =
     \<lparr>phase = Reviewing, iteration = 2, featureName = None, branchName = None, commitCount = 0,
      signals = [(''review'', True), (''backend-refine'', True), (''frontend-refine'', True),
                 (''tests-refine'', True)],
      lastUpdated = ''2026-02-10T14:00:00.000Z''\<rparr>"

definition second_round_after :: world where
  "second_round_after =
     project [marker ''review'', marker ''backend-refine'', marker ''frontend-refine'',
              marker ''tests-refine'', review_md ''STATUS: FAIL'',
              ([''proj'', ''.workflow'', ''sessions''], Dir),
              ([''proj'', ''.workflow'', ''sessions'', ''main''], Dir),
              ([''proj'', ''.workflow'', ''sessions'', ''main'', ''timeline.json''],
               File (TimelineJson [\<lparr>timestamp = ''2026-02-10T15:00:00.000Z'', ev_type = ''phase_change'',
                                     message = ''Phase changed to: refining'',
                                     data = [(''phase'', ''refining'')]\<rparr>])),
              ([''proj'', ''.workflow'', ''state.json''],
               File (StateJson (second_round_state\<lparr>iteration := 3, phase := Refining,
                                  lastUpdated := ''2026-02-10T15:00:00.000Z''\<rparr>)))]"

text \<open>An approved plan, before and after a refresh of the state.\<close>

definition planned_world :: world where
  "planned_world = project [marker ''plan'']"

definition planned_state :: WorkflowState where
  "planned_state = \<lparr>phase = Implementing, iteration = 1, featureName = None, branchName = None,
                     commitCount = 0, signals = [(''plan'', True)], lastUpdated = ''2026-02-10T15:00:00.000Z''\<rparr>"

definition planned_after :: world where
  "planned_after =
     project [marker ''plan'', ([''proj'', ''.workflow'', ''state.json''], File (StateJson planned_state))]"

text \<open>A planning artifact, and a state file cut off in the middle of a write.\<close>

definition plan_md :: "path \<times> node" where
  "plan_md = ([''proj'', ''.workflow'', ''PLAN.md''], File (Text ''# Plan: Login form''))"

definition corrupt_state_world :: world where
  "corrupt_state_world =
     project [([''proj'', ''.workflow'', ''state.json''], File (Text ''{ phase: implem''))]"

text \<open>A session saved for branch feature-a when no signal was set; the plan signal set
  afterwards; the project after the restore of feature-a.\<close>

definition fresh_state :: WorkflowState where
  "fresh_state = \<lparr>phase = Init, iteration = 1, featureName = None, branchName = Some ''feature-a'',
                   commitCount = 0, signals = [], lastUpdated = ''2026-02-10T15:00:00.000Z''\<rparr>"

definition snapshot_files :: "(path \<times> node) list" where
  "snapshot_files =
     [([''proj'', ''.workflow'', ''sessions''], Dir),
      ([''proj'', ''.workflow'', ''sessions'', ''feature-a''], Dir),
      ([''proj'', ''.workflow'', ''sessions'', ''feature-a'', ''state.json''], File (StateJson fresh_state))]"

definition plan_marker :: "path \<times> node" where
  "plan_marker = ([''proj'', ''.workflow'', ''signals'', ''plan.done''], File (Text ''2026-02-10T15:00:00.000Z''))"

text \<open>The marker of the signal name \<open>a.doneb\<close>.\<close>

definition inner_done_marker :: "path \<times> node" where
  "inner_done_marker =
     ([''proj'', ''.workflow'', ''signals'', ''a.doneb.done''], File (Text ''2026-02-10T15:00:00.000Z''))"

definition restored_files :: "(path \<times> node) list" where
  "restored_files =
     snapshot_files @ [plan_marker, ([''proj'', ''.workflow'', ''state.json''], File (StateJson fresh_state))]"

text \<open>A passed review, before and after the compound request.\<close>

definition passed_review_world :: world where
  "passed_review_world = project [marker ''review'', review_md ''STATUS: PASS'']"

definition passed_state :: WorkflowState where
  "passed_state =
     \<lparr>phase = Reviewing, iteration = 1, featureName = None, branchName = None, commitCount = 0,
      signals = [(''review'', True)], lastUpdated = ''2026-02-10T14:00:00.000Z''\<rparr>"

definition compounded_world :: world where
  "compounded_world =
     project [marker ''review'', review_md ''STATUS: PASS'',
              ([''proj'', ''.workflow'', ''signals'', ''compound.done''],
               File (Text ''2026-02-10T15:00:00.000Z'')),
              ([''proj'', ''.workflow'', ''sessions''], Dir),
              ([''proj'', ''.workflow'', ''sessions'', ''main''], Dir),
              ([''proj'', ''.workflow'', ''sessions'', ''main'', ''timeline.json''],
               File (TimelineJson [\<lparr>timestamp = ''2026-02-10T15:00:00.000Z'', ev_type = ''phase_change'',
                                     message = ''Phase changed to: compounding'',
                                     data = [(''phase'', ''compounding'')]\<rparr>])),
              ([''proj'', ''.workflow'', ''state.json''],
               File (StateJson (passed_state\<lparr>phase := Compounding,
                                  lastUpdated := ''2026-02-10T15:00:00.000Z''\<rparr>)))]"

text \<open>A project with the backend signal set and a snapshot of feature-a that holds the plan
  signal.\<close>

definition snapshot_with_plan :: "(path \<times> node) list" where
  "snapshot_with_plan =
     [([''proj'', ''.workflow'', ''signals'', ''backend.done''], File (Text ''2026-02-10T14:30:00.000Z'')),
      ([''proj'', ''.workflow'', ''sessions''], Dir),
      ([''proj'', ''.workflow'', ''sessions'', ''feature-a''], Dir),
      ([''proj'', ''.workflow'', ''sessions'', ''feature-a'', ''state.json''], File (StateJson fresh_state)),
      ([''proj'', ''.workflow'', ''sessions'', ''feature-a'', ''signals''], Dir),
      ([''proj'', ''.workflow'', ''sessions'', ''feature-a'', ''signals'', ''plan.done''],
       File (Text ''2026-02-10T14:00:00.000Z''))]"

section \<open>What the file operations leave alone\<close>

lemma keeps_refl: "keeps T w w"
  by (simp add: keeps_def)

lemma keeps_mono: "keeps T w w' \<Longrightarrow> T \<subseteq> T' \<Longrightarrow> keeps T' w w'"
  unfolding keeps_def by blast

lemma keeps_trans: "keeps T w w' \<Longrightarrow> keeps T' w' w'' \<Longrightarrow> keeps (T \<union> T') w w''"
  unfolding keeps_def by auto

lemma children_update:
  "p = [] \<or> butlast p \<noteq> d \<Longrightarrow>
   filter (\<lambda>e. fst e \<noteq> [] \<and> butlast (fst e) = d) (AList.update p n fs) =
   filter (\<lambda>e. fst e \<noteq> [] \<and> butlast (fst e) = d) fs"
  by (induction fs) auto

lemma children_delete:
  "p = [] \<or> butlast p \<noteq> d \<Longrightarrow>
   filter (\<lambda>e. fst e \<noteq> [] \<and> butlast (fst e) = d) (AList.delete p fs) =
   filter (\<lambda>e. fst e \<noteq> [] \<and> butlast (fst e) = d) fs"
  by (induction fs) auto

lemma strict_prefix_snoc: "strict_prefix (base @ [c]) q \<Longrightarrow> strict_prefix base q"
  by (auto simp: strict_prefix_def prefix_def)

lemma keeps_put: "p \<noteq> [] \<Longrightarrow> keeps {p} w (w\<lparr>files := AList.update p n (files w)\<rparr>)"
  by (auto simp: keeps_def node_at_def children_def update_conv' children_update)

lemma keeps_writeFileSync: "writeFileSync w p c = Inr w' \<Longrightarrow> keeps {p} w w'"
  by (cases "p = []")
     (auto simp: writeFileSync_def node_at_def keeps_put split: option.splits node.splits if_splits)

lemma keeps_unlinkSync: "unlinkSync w p = Inr w' \<Longrightarrow> keeps {p} w w'"
  by (auto simp: unlinkSync_def keeps_def node_at_def children_def delete_conv' children_delete
           split: option.splits node.splits if_splits)

lemma keeps_mkdirs:
  "mkdirs w base cs = Inr w' \<Longrightarrow>
   keeps {q. strict_prefix base q \<and> prefix q (base @ cs) \<and> node_at w q = None} w w'"
proof (induction cs arbitrary: w base)
  case Nil
  then show ?case by (simp add: keeps_refl)
next
  case (Cons c cs)
  let ?p = "base @ [c]"
  let ?T = "{q. strict_prefix base q \<and> prefix q (base @ c # cs) \<and> node_at w q = None}"
  show ?case
  proof (cases "node_at w ?p")
    case None
    let ?w1 = "w\<lparr>files := AList.update ?p Dir (files w)\<rparr>"
    from Cons.prems None have m: "mkdirs ?w1 ?p cs = Inr w'" by simp
    have k1: "keeps {?p} w ?w1" by (rule keeps_put) simp
    have k2: "keeps {q. strict_prefix ?p q \<and> prefix q (?p @ cs) \<and> node_at ?w1 q = None} ?w1 w'"
      by (rule Cons.IH [OF m])
    have sub: "{?p} \<union> {q. strict_prefix ?p q \<and> prefix q (?p @ cs) \<and> node_at ?w1 q = None} \<subseteq> ?T"
    proof -
      have a: "?p \<in> ?T" using None by (simp add: strict_prefix_def)
      have b: "\<And>q. strict_prefix ?p q \<Longrightarrow> node_at ?w1 q = None \<Longrightarrow> node_at w q = None"
        using k1 by (auto simp: keeps_def)
      have c: "\<And>q. strict_prefix ?p q \<Longrightarrow> strict_prefix base q"
        by (rule strict_prefix_snoc)
      show ?thesis using a b c by auto
    qed
    show ?thesis by (rule keeps_mono [OF keeps_trans [OF k1 k2] sub])
  next
    case (Some n)
    show ?thesis
    proof (cases n)
      case Dir
      with Cons.prems Some have m: "mkdirs w ?p cs = Inr w'" by simp
      have k2: "keeps {q. strict_prefix ?p q \<and> prefix q (?p @ cs) \<and> node_at w q = None} w w'"
        by (rule Cons.IH [OF m])
      have c: "\<And>q. strict_prefix ?p q \<Longrightarrow> strict_prefix base q"
        by (rule strict_prefix_snoc)
      show ?thesis by (rule keeps_mono [OF k2]) (use c in auto)
    qed (use Cons.prems Some in auto)
  qed
qed

lemma wp_signals [simp]: "workflowPath w [SIGNALS_DIR] = cwd w @ [''.workflow'', ''signals'']"
  by (simp add: workflowPath_def join_def WORKFLOW_DIR_def SIGNALS_DIR_def)

lemma wp_state [simp]: "workflowPath w [STATE_FILE] = cwd w @ [''.workflow'', ''state.json'']"
  by (simp add: workflowPath_def join_def WORKFLOW_DIR_def STATE_FILE_def)

lemma wp_review [simp]: "workflowPath w [REVIEW_FILE] = cwd w @ [''.workflow'', ''REVIEW.md'']"
  by (simp add: workflowPath_def join_def WORKFLOW_DIR_def REVIEW_FILE_def)

lemma wp_plan [simp]: "workflowPath w [''PLAN.md''] = cwd w @ [''.workflow'', ''PLAN.md'']"
  by (simp add: workflowPath_def join_def WORKFLOW_DIR_def)

lemma tmp_state [simp]: "tmp_of (c @ [''.workflow'', ''state.json'']) = c @ [''.workflow'', ''state.json.tmp'']"
  by (simp add: tmp_of_def butlast_append)

lemma wf_children_empty: "wf_world w \<Longrightarrow> node_at w d = None \<Longrightarrow> children w d = []"
  by (auto simp: wf_world_def children_def list_all_iff filter_empty_conv)

lemma node_at_writeFileSync: "writeFileSync w p c = Inr w' \<Longrightarrow> node_at w' p = Some (File c)"
  by (cases "p = []")
     (auto simp: writeFileSync_def node_at_def update_conv' split: option.splits node.splits if_splits)

lemma keeps_mkdirSync:
  "mkdirSync_recursive w p = Inr w' \<Longrightarrow> keeps {q. prefix q p \<and> node_at w q = None} w w'"
  unfolding mkdirSync_recursive_def
  by (drule keeps_mkdirs, erule keeps_mono) auto

lemma keeps_cwd: "keeps T w w' \<Longrightarrow> cwd w' = cwd w"
  by (simp add: keeps_def)

lemma keeps_clock: "keeps T w w' \<Longrightarrow> clock w' = clock w"
  by (simp add: keeps_def)

lemma keeps_json_text: "keeps T w w' \<Longrightarrow> json_text w' = json_text w"
  by (simp add: keeps_def)

lemma keeps_node: "keeps T w w' \<Longrightarrow> q \<notin> T \<Longrightarrow> node_at w' q = node_at w q"
  by (simp add: keeps_def)

lemma keeps_children:
  "keeps T w w' \<Longrightarrow> \<forall>q\<in>T. q = [] \<or> butlast q \<noteq> d \<Longrightarrow> children w' d = children w d"
  by (simp add: keeps_def)

subsection \<open>Steps of a run\<close>

lemma keeps_prim:
  "prim w r = (w', x) \<Longrightarrow> (\<And>w1. r = Inr w1 \<Longrightarrow> keeps T w w1) \<Longrightarrow> keeps T w w'"
  by (auto simp: prim_def keeps_refl split: sum.splits)

lemma and_then_cases:
  assumes "and_then r f = (w'', y)"
  obtains e where "r = (w'', Inl e)" "y = Inl e"
        | w1 x where "r = (w1, Inr x)" "f x w1 = (w'', y)"
  using assms by (cases r) (auto simp: and_then_def split: sum.splits)

lemma ensure_dir_keeps:
  assumes "(if \<not> existsSync w d then prim w (mkdirSync_recursive w d) else (w, Inr ())) = (w1, x)"
  shows "keeps {q. prefix q d \<and> node_at w q = None} w w1"
  using assms by (auto simp: keeps_refl split: if_splits elim!: keeps_prim keeps_mkdirSync)

lemma saveState_run:
  assumes "saveState w st = (w', r)"
  shows "keeps (SaveT w) w w' \<and>
         (r = Inr () \<longrightarrow> node_at w' (cwd w @ [''.workflow'', ''state.json'']) =
                          Some (File (StateJson (st\<lparr>lastUpdated := clock w\<rparr>))))"
proof -
  let ?sd = "cwd w @ [''.workflow'', ''signals'']"
  let ?sp = "cwd w @ [''.workflow'', ''state.json'']"
  let ?tp = "cwd w @ [''.workflow'', ''state.json.tmp'']"
  let ?A = "{q. prefix q ?sd \<and> node_at w q = None}"
  from assms show ?thesis
    unfolding saveState_def Let_def wp_signals wp_state tmp_state
  proof (cases rule: and_then_cases)
    case (1 e)
    have "keeps ?A w w'" using ensure_dir_keeps 1(1) by blast
    then show ?thesis using 1 by (auto simp: SaveT_def elim: keeps_mono)
  next
    case (2 w1 x)
    have k1: "keeps ?A w w1" using ensure_dir_keeps 2(1) by blast
    have c1: "clock w1 = clock w" using k1 by (rule keeps_clock)
    from 2(2) show ?thesis
    proof (cases rule: and_then_cases)
      case (1 e)
      have "keeps {?tp} w1 w'" using 1(1) by (auto elim!: keeps_prim keeps_writeFileSync)
      with k1 have "keeps (?A \<union> {?tp}) w w'" by (rule keeps_trans)
      then show ?thesis using 1 by (auto simp: SaveT_def elim: keeps_mono)
    next
      case (2 w2 x2)
      have k2: "keeps {?tp} w1 w2" using 2(1) by (auto elim!: keeps_prim keeps_writeFileSync)
      have n2: "node_at w2 ?tp = Some (File (StateJson (st\<lparr>lastUpdated := clock w\<rparr>)))"
        using 2(1) c1 by (auto simp: prim_def split: sum.splits dest: node_at_writeFileSync)
      have r2: "readFileSync w2 ?tp = Inr (StateJson (st\<lparr>lastUpdated := clock w\<rparr>))"
        using n2 by (simp add: readFileSync_def)
      from 2(2) show ?thesis
      proof (cases rule: and_then_cases)
        case (1 e)
        then show ?thesis using r2 by simp
      next
        case (2 w3 buf)
        then have w3: "w3 = w2" and buf: "buf = StateJson (st\<lparr>lastUpdated := clock w\<rparr>)"
          using r2 by auto
        from 2(2) show ?thesis
        proof (cases rule: and_then_cases)
          case (1 e)
          have "keeps {?sp} w3 w'" using 1(1) by (auto elim!: keeps_prim keeps_writeFileSync)
          with k1 k2 w3 have "keeps ((?A \<union> {?tp}) \<union> {?sp}) w w'" by (blast intro: keeps_trans)
          then show ?thesis using 1 by (auto simp: SaveT_def elim: keeps_mono)
        next
          case (2 w4 x4)
          have k4: "keeps {?sp} w3 w4" using 2(1) by (auto elim!: keeps_prim keeps_writeFileSync)
          have n4: "node_at w4 ?sp = Some (File buf)"
            using 2(1) by (auto simp: prim_def split: sum.splits dest: node_at_writeFileSync)
          have k5: "keeps {?tp} w4 w'"
            using 2(2) by (auto simp: keeps_refl split: sum.splits dest: keeps_unlinkSync)
          have n5: "node_at w' ?sp = Some (File buf)"
            using keeps_node [OF k5, of ?sp] n4 by simp
          have r5: "r = Inr ()" using 2(2) by (auto split: sum.splits)
          have "keeps (((?A \<union> {?tp}) \<union> {?sp}) \<union> {?tp}) w w'"
            using k1 k2 k4 k5 w3 by (blast intro: keeps_trans)
          then have "keeps (SaveT w) w w'" by (auto simp: SaveT_def elim: keeps_mono)
          then show ?thesis using n5 buf by simp
        qed
      qed
    qed
  qed
qed

subsection \<open>Reading signals, review and phase\<close>

lemma getSignals_never_throws: "\<exists>sigs. getSignals w = Inr sigs"
  by (simp add: getSignals_def Let_def split: sum.splits)

lemma getSignals_cong:
  assumes "cwd w' = cwd w"
    and "node_at w' (cwd w @ [''.workflow'', ''signals'']) = node_at w (cwd w @ [''.workflow'', ''signals''])"
    and "children w' (cwd w @ [''.workflow'', ''signals'']) = children w (cwd w @ [''.workflow'', ''signals''])"
  shows "getSignals w' = getSignals w"
proof -
  have "existsSync w' (cwd w @ [''.workflow'', ''signals'']) = existsSync w (cwd w @ [''.workflow'', ''signals''])"
    and "readdirSync w' (cwd w @ [''.workflow'', ''signals'']) = readdirSync w (cwd w @ [''.workflow'', ''signals''])"
    unfolding existsSync_def readdirSync_def assms(2) assms(3) by (rule refl)+
  then show ?thesis
    unfolding getSignals_def Let_def wp_signals assms(1) by (simp only:)
qed

lemma getSignals_no_dir:
  assumes "children w (cwd w @ [''.workflow'', ''signals'']) = []"
  shows "getSignals w = Inr []"
  using assms
  by (auto simp: getSignals_def existsSync_def readdirSync_def Let_def split: option.splits node.splits)

lemma getReviewStatus_cong:
  assumes "cwd w' = cwd w" "json_text w' = json_text w" "getSignals w' = getSignals w"
    and "node_at w' (cwd w @ [''.workflow'', ''REVIEW.md'']) = node_at w (cwd w @ [''.workflow'', ''REVIEW.md''])"
  shows "getReviewStatus w' = getReviewStatus w"
proof -
  have "existsSync w' (cwd w @ [''.workflow'', ''REVIEW.md'']) = existsSync w (cwd w @ [''.workflow'', ''REVIEW.md''])"
    and "readFileSync w' (cwd w @ [''.workflow'', ''REVIEW.md'']) = readFileSync w (cwd w @ [''.workflow'', ''REVIEW.md''])"
    and "utf8 w' = utf8 w"
    using assms by (auto simp: existsSync_def readFileSync_def utf8_def fun_eq_iff split: content.splits)
  then show ?thesis
    unfolding getReviewStatus_def Let_def wp_review assms(1) assms(3) by (simp only:)
qed

lemma getReviewStatus_never_throws: "\<exists>s. getReviewStatus w = Inr s"
proof -
  obtain sigs where "getSignals w = Inr sigs" using getSignals_never_throws by blast
  then show ?thesis by (simp add: getReviewStatus_def Let_def split: sum.splits)
qed

lemma determinePhase_cong:
  assumes "cwd w' = cwd w" "getReviewStatus w' = getReviewStatus w"
    and "node_at w' (cwd w @ [''.workflow'', ''PLAN.md'']) = node_at w (cwd w @ [''.workflow'', ''PLAN.md''])"
  shows "determinePhase w' sigs = determinePhase w sigs"
proof -
  have "existsSync w' (cwd w @ [''.workflow'', ''PLAN.md'']) = existsSync w (cwd w @ [''.workflow'', ''PLAN.md''])"
    using assms by (simp add: existsSync_def)
  then show ?thesis
    unfolding determinePhase_def Let_def wp_plan assms(1) assms(2) by (simp only:)
qed

lemma determinePhase_never_throws: "\<exists>p. determinePhase w sigs = Inr p"
proof -
  obtain s where "getReviewStatus w = Inr s" using getReviewStatus_never_throws by blast
  then show ?thesis by (simp add: determinePhase_def Let_def)
qed

lemma SaveT_signals_children:
  "\<forall>q\<in>SaveT w. q = [] \<or> butlast q \<noteq> cwd w @ [''.workflow'', ''signals'']"
proof
  fix q assume q: "q \<in> SaveT w"
  show "q = [] \<or> butlast q \<noteq> cwd w @ [''.workflow'', ''signals'']"
  proof (rule disjCI)
    assume b: "\<not> butlast q \<noteq> cwd w @ [''.workflow'', ''signals'']" 
    then have len: "length q = length (cwd w) + 3 \<or> q = []" by (cases q rule: rev_cases) auto
    from q consider "prefix q (cwd w @ [''.workflow'', ''signals''])"
      | "q = cwd w @ [''.workflow'', ''state.json.tmp'']" | "q = cwd w @ [''.workflow'', ''state.json'']"
      by (auto simp: SaveT_def)
    then show "q = []"
    proof cases
      case 1
      then have "length q \<le> length (cwd w) + 2" by (auto dest: prefix_length_le)
      with len show ?thesis by auto
    next
      case 2 with b show ?thesis by (simp add: butlast_append)
    next
      case 3 with b show ?thesis by (simp add: butlast_append)
    qed
  qed
qed

lemma SaveT_other:
  assumes "x \<noteq> ''signals''" "x \<noteq> ''state.json''" "x \<noteq> ''state.json.tmp''"
  shows "cwd w @ [''.workflow'', x] \<notin> SaveT w"
  using assms by (auto simp: SaveT_def)

lemma getSignals_saveState:
  assumes "saveState w st = (w', r)" and "wf_world w \<or> existsSync w (cwd w @ [''.workflow'', ''signals''])"
  shows "getSignals w' = getSignals w"
proof -
  let ?sd = "cwd w @ [''.workflow'', ''signals'']"
  have k: "keeps (SaveT w) w w'" using saveState_run [OF assms(1)] by simp
  have ch: "children w' ?sd = children w ?sd"
    using keeps_children [OF k SaveT_signals_children] .
  have cw: "cwd w' = cwd w" using k by (rule keeps_cwd)
  show ?thesis
  proof (cases "existsSync w ?sd")
    case True
    then have "?sd \<notin> SaveT w" by (auto simp: SaveT_def existsSync_def)
    then have "node_at w' ?sd = node_at w ?sd" using k by (rule keeps_node [rotated])
    then show ?thesis using ch cw by (intro getSignals_cong) auto
  next
    case False
    with assms(2) have wf: "wf_world w" by simp
    from False have "children w ?sd = []"
      using wf_children_empty [OF wf] by (simp add: existsSync_def)
    then have "getSignals w = Inr []" "getSignals w' = Inr []"
      using ch cw getSignals_no_dir [of w] getSignals_no_dir [of w'] by auto
    then show ?thesis by simp
  qed
qed

lemma determinePhase_saveState:
  assumes "saveState w st = (w', r)" and "wf_world w \<or> existsSync w (cwd w @ [''.workflow'', ''signals''])"
  shows "determinePhase w' sigs = determinePhase w sigs"
proof -
  have k: "keeps (SaveT w) w w'" using saveState_run [OF assms(1)] by simp
  have g: "getSignals w' = getSignals w" using assms by (rule getSignals_saveState)
  have r: "getReviewStatus w' = getReviewStatus w"
    by (rule getReviewStatus_cong)
       (use k g in \<open>auto simp: keeps_cwd keeps_json_text SaveT_other intro!: keeps_node [OF k]\<close>)
  show ?thesis
    by (rule determinePhase_cong)
       (use k r in \<open>auto simp: keeps_cwd SaveT_other intro!: keeps_node [OF k]\<close>)
qed

subsection \<open>The timeline stays away from the signals\<close>

lemma segments_no_slash: "CHR ''/'' \<notin> set s \<Longrightarrow> segments s = [s]"
  by (induction s) auto

lemma sanitized_no_slash: "CHR ''/'' \<notin> set (sanitized b)"
  by (auto simp: sanitized_def)

lemma getSessionsDir_eq [simp]: "getSessionsDir w = cwd w @ [''.workflow'', ''sessions'']"
  by (simp add: getSessionsDir_def join_def WORKFLOW_DIR_def SESSIONS_DIR_def)

lemma getBranchDir_cases:
  "getBranchDir w b = cwd w @ [''.workflow''] \<or>
   getBranchDir w b = cwd w @ [''.workflow'', ''sessions''] \<or>
   getBranchDir w b = cwd w @ [''.workflow'', ''sessions'', sanitized b]"
  by (simp add: getBranchDir_def join_def segments_no_slash [OF sanitized_no_slash] butlast_append)

lemma getTimelinePath_current [simp]:
  "getTimelinePath w (Some (getCurrentBranch w)) = getBranchDir w (git_branch w) @ [''timeline.json'']"
  by (simp add: getTimelinePath_def getCurrentBranch_def join_def TIMELINE_FILE_def)

lemma addTimelineEvent_keeps:
  assumes "addTimelineEvent w t m d = (w', r)"
  shows "keeps (TimelineT w) w w'"
proof (cases "loadTimeline w (Some (getCurrentBranch w))")
  case NoArray
  with assms show ?thesis by (simp add: addTimelineEvent_def Let_def keeps_refl)
next
  case (Events es)
  let ?bd = "getBranchDir w (git_branch w)"
  let ?A = "{q. prefix q ?bd \<and> node_at w q = None}"
  from assms Events have "saveTimeline w (es @ [\<lparr>timestamp = clock w, ev_type = t, message = m, data = d\<rparr>])
       (Some (getCurrentBranch w)) = (w', r)"
    by (simp add: addTimelineEvent_def Let_def)
  moreover have dir_eq: "join (?bd @ [''timeline.json'']) [''..''] = ?bd"
    by (simp add: join_def)
  ultimately show ?thesis
    unfolding saveTimeline_def Let_def getTimelinePath_current dir_eq
  proof (cases rule: and_then_cases)
    case (1 e)
    have "keeps ?A w w'" using 1(1) by (rule ensure_dir_keeps)
    then show ?thesis by (auto simp: TimelineT_def elim: keeps_mono)
  next
    case (2 w1 x)
    have k1: "keeps ?A w w1" using 2(1) by (rule ensure_dir_keeps)
    have k2: "keeps {?bd @ [''timeline.json'']} w1 w'"
      using 2(2) by (auto elim!: keeps_prim keeps_writeFileSync)
    have "keeps (?A \<union> {?bd @ [''timeline.json'']}) w w'" using k1 k2 by (rule keeps_trans)
    then show ?thesis by (simp add: TimelineT_def)
  qed
qed

lemma TimelineT_signals:
  "cwd w @ [''.workflow'', ''signals''] \<notin> TimelineT w"
  "\<forall>q\<in>TimelineT w. q = [] \<or> butlast q \<noteq> cwd w @ [''.workflow'', ''signals'']"
proof -
  let ?sd = "cwd w @ [''.workflow'', ''signals'']"
  let ?bd = "getBranchDir w (git_branch w)"
  have np: "\<not> prefix ?sd ?bd" and ne: "?bd \<noteq> ?sd"
    using getBranchDir_cases [of w "git_branch w"] by auto
  show "?sd \<notin> TimelineT w"
    using np getBranchDir_cases [of w "git_branch w"] by (auto simp: TimelineT_def)
  show "\<forall>q\<in>TimelineT w. q = [] \<or> butlast q \<noteq> ?sd"
  proof (intro ballI disjCI)
    fix q assume q: "q \<in> TimelineT w" and b: "\<not> butlast q \<noteq> ?sd"
    from q consider "prefix q ?bd" | "q = ?bd @ [''timeline.json'']" by (auto simp: TimelineT_def)
    then show "q = []"
    proof cases
      case 1
      show ?thesis
      proof (rule ccontr)
        assume "q \<noteq> []"
        then have "prefix (butlast q) q" by (metis append_butlast_last_id prefixI)
        with 1 b have "prefix ?sd ?bd" by (metis prefix_order.trans)
        with np show False ..
      qed
    next
      case 2
      with b ne show ?thesis by simp
    qed
  qed
qed

lemma getSignals_logPhaseChange:
  assumes "logPhaseChange w ph = (w', r)"
  shows "getSignals w' = getSignals w"
proof -
  have k: "keeps (TimelineT w) w w'"
    using assms unfolding logPhaseChange_def by (rule addTimelineEvent_keeps)
  show ?thesis
    by (rule getSignals_cong)
       (use k TimelineT_signals [of w] in \<open>auto simp: keeps_cwd keeps_node keeps_children\<close>)
qed

section \<open>Evaluating the examples\<close>

lemmas world_defs = project_def project_files_def marker_def review_md_def
lemmas fs_defs = existsSync_def readdirSync_def readFileSync_def node_at_def children_def utf8_def
lemmas js_defs = endsWith_def obj_set_def truthy_def
lemmas run_defs = and_then_def prim_def mkdirSync_recursive_def writeFileSync_def unlinkSync_def
  tmp_of_def
lemmas timeline_defs = logPhaseChange_def addTimelineEvent_def loadTimeline_def saveTimeline_def
  getTimelinePath_def getBranchDir_def getCurrentBranch_def sanitized_def join_def TIMELINE_FILE_def
lemmas session_defs = getBranchSessionPath_def workflowPath_def join_def WORKFLOW_DIR_def
  SESSIONS_DIR_def SIGNALS_DIR_def STATE_FILE_def

section \<open>The phase engine\<close>

lemma getSignals_race_world: "getSignals race_world = Inr race_signals"
  by (simp add: race_world_def race_signals_def world_defs getSignals_def fs_defs js_defs Let_def)

lemma getReviewStatus_race_world: "getReviewStatus race_world = Inr FAIL"
  by (simp add: getReviewStatus_def getSignals_race_world race_signals_def js_defs Let_def)
     (simp add: race_world_def world_defs fs_defs)

text \<open>
  Claim C1 says that \<open>determinePhase\<close> returns compounding when the compound signal is
  present and the pr signal is absent, and complete only when pr is present. The code does
  otherwise: its first test is \<open>signals.compound || signals.pr\<close>, so the later branch that
  returns compounding for the compound signal is never reached. At the example of the
  specification, with the signals compound, backend, frontend, tests and review set, no pr
  signal and a review that reads \<open>STATUS: FAIL\<close>, the result is complete.
\<close>

theorem determinePhase_compound_without_pr:
  "getSignals race_world = Inr race_signals \<and> getReviewStatus race_world = Inr FAIL \<and>
   \<not> truthy race_signals ''pr'' \<and> determinePhase race_world race_signals = Inr Complete"
  by (simp add: getSignals_race_world getReviewStatus_race_world)
     (simp add: determinePhase_def race_signals_def truthy_def)

lemma determinePhase_compound: "truthy sigs ''compound'' \<Longrightarrow> determinePhase w sigs = Inr Complete"
  by (simp add: determinePhase_def)

text \<open>
  Claim C2: when the signals compound and pr are absent, the review signal is present and the
  review outcome is FAIL, \<open>determinePhase\<close> returns reviewing if the three refine signals
  backend-refine, frontend-refine and tests-refine are all present, and refining otherwise.
\<close>

theorem determinePhase_refine_gate:
  assumes "\<not> truthy sigs ''compound''" and "\<not> truthy sigs ''pr''"
    and "truthy sigs ''review''" and "getReviewStatus w = Inr FAIL"
  shows "determinePhase w sigs =
           Inr (if truthy sigs ''backend-refine'' \<and> truthy sigs ''frontend-refine'' \<and>
                   truthy sigs ''tests-refine''
                then Reviewing else Refining)"
  using assms by (simp add: determinePhase_def)

lemma getSignals_failed_review_world: "getSignals failed_review_world = Inr [(''review'', True)]"
  by (simp add: failed_review_world_def world_defs getSignals_def fs_defs js_defs Let_def)

lemma getReviewStatus_failed_review_world: "getReviewStatus failed_review_world = Inr FAIL"
  by (simp add: getReviewStatus_def getSignals_failed_review_world js_defs Let_def)
     (simp add: failed_review_world_def world_defs fs_defs)

text \<open>Witness for C2: with two of the three refine signals the phase is refining, and the
  third one flips it to reviewing.\<close>

theorem determinePhase_refine_gate_witness:
  "determinePhase failed_review_world
     [(''review'', True), (''backend-refine'', True), (''frontend-refine'', True)] = Inr Refining \<and>
   determinePhase failed_review_world
     [(''review'', True), (''backend-refine'', True), (''frontend-refine'', True),
      (''tests-refine'', True)] = Inr Reviewing"
  using determinePhase_refine_gate
          [of "[(''review'', True), (''backend-refine'', True), (''frontend-refine'', True)]"
              failed_review_world]
        determinePhase_refine_gate
          [of "[(''review'', True), (''backend-refine'', True), (''frontend-refine'', True),
                (''tests-refine'', True)]" failed_review_world]
  by (simp add: getReviewStatus_failed_review_world truthy_def)

section \<open>The review classifier\<close>

text \<open>
  Claim C3: \<open>getReviewStatus\<close> returns PENDING whenever the review signal is absent, the
  review artifact does not exist or cannot be read, whatever its text; otherwise it returns
  the classification of the text, in this order of precedence: PASS_WITH_WARNINGS for
  \<open>STATUS: PASS\<close> together with \<open>PASS_WITH_WARNINGS\<close> or with both \<open>Warnings\<close> and
  \<open>Non-blocking\<close>, PASS for \<open>STATUS: PASS\<close> alone, FAIL for \<open>STATUS: FAIL\<close>, PENDING for
  any other text. It never throws.
\<close>

theorem getReviewStatus_classifier:
  "(\<not> reviewSignalPresent w \<or> \<not> existsSync w (workflowPath w [REVIEW_FILE]) \<or>
      (\<exists>e. readFileSync w (workflowPath w [REVIEW_FILE]) = Inl e)
      \<longrightarrow> getReviewStatus w = Inr PENDING) \<and>
   (\<forall>c. reviewSignalPresent w \<and> readFileSync w (workflowPath w [REVIEW_FILE]) = Inr c
      \<longrightarrow> getReviewStatus w = Inr (classifyReview (utf8 w c))) \<and>
   (\<exists>s. getReviewStatus w = Inr s)"
proof -
  obtain sigs where s: "getSignals w = Inr sigs" using getSignals_never_throws by blast
  have ex: "existsSync w p \<longleftrightarrow> (readFileSync w p \<noteq> Inl ENOENT)" for p
    by (auto simp: existsSync_def readFileSync_def split: option.splits node.splits)
  show ?thesis
    using getReviewStatus_never_throws [of w]
    by (auto simp: getReviewStatus_def reviewSignalPresent_def classifyReview_def s Let_def ex
             split: sum.splits)
qed

lemma getSignals_warned_review_world: "getSignals warned_review_world = Inr [(''review'', True)]"
  by (simp add: warned_review_world_def world_defs getSignals_def fs_defs js_defs Let_def)

text \<open>Witness for C3: a review with warnings and the review signal set, and a project with
  no review artifact.\<close>

theorem getReviewStatus_classifier_witness:
  "reviewSignalPresent warned_review_world \<and>
   readFileSync warned_review_world (workflowPath warned_review_world [REVIEW_FILE]) =
     Inr (Text ''STATUS: PASS_WITH_WARNINGS'') \<and>
   getReviewStatus warned_review_world = Inr PASS_WITH_WARNINGS \<and>
   \<not> existsSync (project []) (workflowPath (project []) [REVIEW_FILE]) \<and>
   getReviewStatus (project []) = Inr PENDING"
proof -
  have a: "reviewSignalPresent warned_review_world"
    by (simp add: reviewSignalPresent_def getSignals_warned_review_world truthy_def)
  have b: "readFileSync warned_review_world (workflowPath warned_review_world [REVIEW_FILE]) =
             Inr (Text ''STATUS: PASS_WITH_WARNINGS'')"
    by (simp add: warned_review_world_def world_defs fs_defs)
  have c: "\<not> existsSync (project []) (workflowPath (project []) [REVIEW_FILE])"
    by (simp add: world_defs fs_defs)
  have d: "classifyReview (utf8 warned_review_world (Text ''STATUS: PASS_WITH_WARNINGS'')) = PASS_WITH_WARNINGS"
    by (simp add: classifyReview_def utf8_def)
  show ?thesis
    using getReviewStatus_classifier [of warned_review_world]
          getReviewStatus_classifier [of "project []"] a b c d
    by auto
qed

section \<open>The refine request\<close>

lemma js_increment_safe:
  assumes "MIN_SAFE_INTEGER \<le> n" and "n < MAX_SAFE_INTEGER"
  shows "js_increment n = n + 1"
  using assms by (simp add: js_increment_def MIN_SAFE_INTEGER_def MAX_SAFE_INTEGER_def)

text \<open>Far below the safe integers the increment changes nothing.\<close>

lemma js_increment_far_below: "js_increment (- 100000000000000000000) = - 100000000000000000000"
  by (simp add: js_increment_def)

lemma getSignals_nonempty_exists:
  assumes "getSignals w = Inr sigs" and "sigs \<noteq> []"
  shows "existsSync w (cwd w @ [''.workflow'', ''signals''])"
  using assms by (auto simp: getSignals_def Let_def split: if_splits)

lemma review_failed_signal:
  assumes "getReviewStatus w = Inr FAIL"
  shows "\<exists>sigs. getSignals w = Inr sigs \<and> truthy sigs ''review''"
  using assms getSignals_never_throws [of w]
  by (auto simp: getReviewStatus_def Let_def split: if_splits sum.splits)

lemma review_failed_signals_dir:
  assumes "getReviewStatus w = Inr FAIL"
  shows "existsSync w (cwd w @ [''.workflow'', ''signals''])"
proof -
  obtain sigs where s: "getSignals w = Inr sigs" "truthy sigs ''review''"
    using review_failed_signal [OF assms] by blast
  then have "sigs \<noteq> []" by (auto simp: truthy_def)
  with s(1) show ?thesis by (rule getSignals_nonempty_exists)
qed

lemma logPhaseChange_env:
  assumes "logPhaseChange w ph = (w', r)"
  shows "cwd w' = cwd w" "clock w' = clock w"
  using addTimelineEvent_keeps [OF assms [unfolded logPhaseChange_def]]
  by (simp_all add: keeps_cwd keeps_clock)

lemma logPhaseChange_signals_dir:
  assumes "logPhaseChange w ph = (w', r)"
  shows "existsSync w' (cwd w @ [''.workflow'', ''signals'']) = existsSync w (cwd w @ [''.workflow'', ''signals''])"
  using keeps_node [OF addTimelineEvent_keeps [OF assms [unfolded logPhaseChange_def]] TimelineT_signals(1)]
  by (simp add: existsSync_def)

text \<open>
  Claim C4: \<open>handleDispatchRefine\<close> goes ahead only when the review outcome is FAIL and
  the iteration is below 3. Otherwise it refuses: the world, and with it the signals and
  the persisted state, and the state object stay as they were. When it goes ahead, on a
  state whose iteration is an integer not below \<open>Number.MIN_SAFE_INTEGER\<close> (the data model
  has the integers from 1 on), the iteration grows by exactly 1 and the signal set read
  from disk is the same as before, whether or not a later write throws; when no write
  throws, the state object has phase refining and is what the state file now holds, with
  a fresh time stamp.
\<close>

theorem handleDispatchRefine_gate:
  "(getReviewStatus w \<noteq> Inr FAIL \<or> 3 \<le> iteration state
      \<longrightarrow> handleDispatchRefine w state = (w, state, Inr ())) \<and>
   (getReviewStatus w = Inr FAIL \<and> iteration state < 3 \<and> MIN_SAFE_INTEGER \<le> iteration state
      \<longrightarrow> (case handleDispatchRefine w state of
             (w', state', r) \<Rightarrow>
               iteration state' = iteration state + 1 \<and>
               getSignals w' = getSignals w \<and>
               (r = Inr () \<longrightarrow>
                  phase state' = Refining \<and>
                  readFileSync w' (workflowPath w' [STATE_FILE]) =
                    Inr (StateJson (state'\<lparr>lastUpdated := clock w\<rparr>)))))"
proof (intro conjI impI)
  assume "getReviewStatus w \<noteq> Inr FAIL \<or> 3 \<le> iteration state"
  then show "handleDispatchRefine w state = (w, state, Inr ())"
    using getReviewStatus_never_throws [of w]
    by (auto simp: handleDispatchRefine_def)
next
  assume a: "getReviewStatus w = Inr FAIL \<and> iteration state < 3 \<and> MIN_SAFE_INTEGER \<le> iteration state"
  then have inc: "js_increment (iteration state) = iteration state + 1"
    by (intro js_increment_safe) (simp_all add: MAX_SAFE_INTEGER_def)
  let ?st1 = "state\<lparr>iteration := iteration state + 1\<rparr>"
  let ?st2 = "?st1\<lparr>phase := Refining\<rparr>"
  obtain w2 r2 where l: "logPhaseChange w ''refining'' = (w2, r2)" by (cases "logPhaseChange w ''refining''")
  have g2: "getSignals w2 = getSignals w" using l by (rule getSignals_logPhaseChange)
  have e2: "cwd w2 = cwd w" "clock w2 = clock w" using l by (rule logPhaseChange_env)+
  show "case handleDispatchRefine w state of
          (w', state', r) \<Rightarrow>
            iteration state' = iteration state + 1 \<and>
            getSignals w' = getSignals w \<and>
            (r = Inr () \<longrightarrow>
               phase state' = Refining \<and>
               readFileSync w' (workflowPath w' [STATE_FILE]) =
                 Inr (StateJson (state'\<lparr>lastUpdated := clock w\<rparr>)))"
  proof (cases r2)
    case (Inl e)
    then have "handleDispatchRefine w state = (w2, ?st1, Inl e)"
      using a l by (simp add: handleDispatchRefine_def dispatchAllWorkers_def inc)
    then show ?thesis using g2 by simp
  next
    case (Inr u)
    obtain w3 r3 where s: "saveState w2 ?st2 = (w3, r3)" by (cases "saveState w2 ?st2")
    have h: "handleDispatchRefine w state = (w3, ?st2, r3)"
      using a l Inr s by (simp add: handleDispatchRefine_def dispatchAllWorkers_def inc)
    have ex2: "existsSync w2 (cwd w2 @ [''.workflow'', ''signals''])"
      using logPhaseChange_signals_dir [OF l] review_failed_signals_dir [of w] a e2 by simp
    have g3: "getSignals w3 = getSignals w2"
      using s ex2 by (intro getSignals_saveState) auto
    have run: "keeps (SaveT w2) w2 w3"
      "r3 = Inr () \<longrightarrow> node_at w3 (cwd w2 @ [''.workflow'', ''state.json'']) =
                 Some (File (StateJson (?st2\<lparr>lastUpdated := clock w2\<rparr>)))"
      using saveState_run [OF s] by auto
    have c3: "cwd w3 = cwd w" using run(1) e2 by (simp add: keeps_cwd)
    have "r3 = Inr () \<longrightarrow> readFileSync w3 (workflowPath w3 [STATE_FILE]) =
            Inr (StateJson (?st2\<lparr>lastUpdated := clock w\<rparr>))"
      using run(2) c3 e2 by (simp add: readFileSync_def)
    then show ?thesis using h g3 g2 by simp
  qed
qed

lemma getSignals_second_round_world:
  "getSignals second_round_world =
     Inr [(''review'', True), (''backend-refine'', True), (''frontend-refine'', True), (''tests-refine'', True)]"
  by (simp add: second_round_world_def world_defs getSignals_def fs_defs js_defs Let_def)

lemma getReviewStatus_second_round_world: "getReviewStatus second_round_world = Inr FAIL"
  by (simp add: getReviewStatus_def getSignals_second_round_world js_defs Let_def)
     (simp add: second_round_world_def world_defs fs_defs)

lemma handleDispatchRefine_second_round:
  "handleDispatchRefine second_round_world second_round_state =
     (second_round_after, second_round_state\<lparr>iteration := 3, phase := Refining\<rparr>, Inr ())"
  by (simp add: handleDispatchRefine_def getReviewStatus_second_round_world dispatchAllWorkers_def)
     (simp add: second_round_world_def second_round_after_def second_round_state_def world_defs
        js_increment_def
        timeline_defs saveState_def run_defs fs_defs Let_def)

lemma getSignals_second_round_after:
  "getSignals second_round_after =
     Inr [(''review'', True), (''backend-refine'', True), (''frontend-refine'', True), (''tests-refine'', True)]"
  by (simp add: second_round_after_def world_defs getSignals_def fs_defs js_defs Let_def)

lemma getReviewStatus_second_round_after: "getReviewStatus second_round_after = Inr FAIL"
  by (simp add: getReviewStatus_def getSignals_second_round_after js_defs Let_def)
     (simp add: second_round_after_def world_defs fs_defs)

text \<open>Witness for C4: the second refine round of a project goes ahead, from iteration 2
  to 3, and the next request, at iteration 3, is refused.\<close>

theorem handleDispatchRefine_gate_witness:
  "getReviewStatus second_round_world = Inr FAIL \<and> iteration second_round_state < 3 \<and>
   MIN_SAFE_INTEGER \<le> iteration second_round_state \<and>
   handleDispatchRefine second_round_world second_round_state =
     (second_round_after, second_round_state\<lparr>iteration := 3, phase := Refining\<rparr>, Inr ()) \<and>
   getSignals second_round_after = getSignals second_round_world \<and>
   3 \<le> iteration (second_round_state\<lparr>iteration := 3, phase := Refining\<rparr>) \<and>
   handleDispatchRefine second_round_after (second_round_state\<lparr>iteration := 3, phase := Refining\<rparr>) =
     (second_round_after, second_round_state\<lparr>iteration := 3, phase := Refining\<rparr>, Inr ())"
proof -
  have i: "iteration second_round_state < 3"
    and k: "MIN_SAFE_INTEGER \<le> iteration second_round_state"
    and j: "3 \<le> iteration (second_round_state\<lparr>iteration := 3, phase := Refining\<rparr>)"
    by (simp_all add: second_round_state_def MIN_SAFE_INTEGER_def)
  have g: "getSignals second_round_after = getSignals second_round_world"
    by (simp add: getSignals_second_round_after getSignals_second_round_world)
  show ?thesis
    using handleDispatchRefine_gate [of second_round_world second_round_state]
          handleDispatchRefine_gate [of second_round_after
                                        "second_round_state\<lparr>iteration := 3, phase := Refining\<rparr>"]
          i j k g getReviewStatus_second_round_world handleDispatchRefine_second_round
    by simp
qed

section \<open>The persisted phase\<close>

text \<open>
  Claim C5 says that after every operation that persists the state, the persisted phase
  equals \<open>determinePhase\<close> of the signals then on disk. The dispatch handlers store the
  phase they enter without asking \<open>determinePhase\<close>. Counterexample: in the second refine
  round the three refine signals of the first round are still set, so
  \<open>handleDispatchRefine\<close> persists refining while \<open>determinePhase\<close> derives reviewing.
\<close>

theorem persisted_phase_counterexample:
  "handleDispatchRefine second_round_world second_round_state =
     (second_round_after, second_round_state\<lparr>iteration := 3, phase := Refining\<rparr>, Inr ()) \<and>
   persisted_phase second_round_after = Inr Refining \<and>
   derived_phase second_round_after = Inr Reviewing"
proof -
  have "loadState second_round_after =
          Inr (second_round_state\<lparr>iteration := 3, phase := Refining,
                 lastUpdated := ''2026-02-10T15:00:00.000Z''\<rparr>)"
    by (simp add: loadState_def parse_state_def second_round_after_def world_defs fs_defs Let_def)
  then have "persisted_phase second_round_after = Inr Refining"
    by (simp add: persisted_phase_def)
  moreover have "derived_phase second_round_after = Inr Reviewing"
    by (simp add: derived_phase_def getSignals_second_round_after determinePhase_def
          getReviewStatus_second_round_after truthy_def)
  ultimately show ?thesis using handleDispatchRefine_second_round by simp
qed

lemma getSignals_passed_review_world: "getSignals passed_review_world = Inr [(''review'', True)]"
  by (simp add: passed_review_world_def world_defs getSignals_def fs_defs js_defs Let_def)

lemma getReviewStatus_passed_review_world: "getReviewStatus passed_review_world = Inr PASS"
  by (simp add: getReviewStatus_def getSignals_passed_review_world js_defs Let_def)
     (simp add: passed_review_world_def world_defs fs_defs)

text \<open>The compound handler creates the compound signal and persists compounding; on the
  signals it leaves, \<open>determinePhase\<close> returns complete, by the test examined under C1.\<close>

lemma handleDispatchCompound_passed:
  "handleDispatchCompound passed_review_world passed_state =
     (compounded_world, passed_state\<lparr>phase := Compounding\<rparr>, Inr ())"
  by (simp add: handleDispatchCompound_def getReviewStatus_passed_review_world)
     (simp add: passed_review_world_def compounded_world_def passed_state_def world_defs
        createSignal_def session_defs timeline_defs saveState_def run_defs fs_defs Let_def)

lemma compounded_world_phases:
  "persisted_phase compounded_world = Inr Compounding \<and> derived_phase compounded_world = Inr Complete"
proof -
  have "loadState compounded_world =
          Inr (passed_state\<lparr>phase := Compounding, lastUpdated := ''2026-02-10T15:00:00.000Z''\<rparr>)"
    by (simp add: loadState_def parse_state_def compounded_world_def world_defs fs_defs Let_def)
  then have a: "persisted_phase compounded_world = Inr Compounding"
    by (simp add: persisted_phase_def)
  have "getSignals compounded_world = Inr [(''review'', True), (''compound'', True)]"
    by (simp add: compounded_world_def world_defs getSignals_def fs_defs js_defs Let_def)
  then have "derived_phase compounded_world = Inr Complete"
    by (simp add: derived_phase_def determinePhase_def truthy_def)
  with a show ?thesis by simp
qed

lemma loadState_document:
  assumes "node_at w (cwd w @ [''.workflow'', ''state.json'']) = Some (File (StateJson s))"
  shows "loadState w = Inr s"
  using assms by (simp add: loadState_def existsSync_def readFileSync_def parse_state_def)

text \<open>
  Claim C5 as amended: \<open>updateStateFromSignals\<close> keeps the invariant. On a well-formed file
  system, after a run that returns, the state file holds the state the run returned, with
  a fresh time stamp; the phase of that persisted state is the one \<open>determinePhase\<close>
  derives from the signals on disk after the save, and its signals are those signals. The
  hypothesis on the state file keeps the statement to the files on which \<open>parse_state\<close>
  agrees with the unchecked cast of the code.
\<close>

theorem updateStateFromSignals_phase_derived:
  assumes "wf_world w" and "updateStateFromSignals w = (w', Inr st)"
    and "\<forall>es. readFileSync w (workflowPath w [STATE_FILE]) \<noteq> Inr (TimelineJson es)"
  shows "loadState w' = Inr (st\<lparr>lastUpdated := clock w\<rparr>) \<and>
         persisted_phase w' = Inr (phase st) \<and> derived_phase w' = Inr (phase st) \<and>
         persisted_signals w' = Inr (signals st) \<and> getSignals w' = Inr (signals st)"
proof -
  obtain s0 where l: "loadState w = Inr s0"
    by (cases "loadState w") (auto simp: loadState_def Let_def split: if_splits sum.splits)
  obtain sigs where g: "getSignals w = Inr sigs" using getSignals_never_throws by blast
  obtain p where d: "determinePhase w sigs = Inr p" using determinePhase_never_throws by blast
  let ?st2 = "(if p \<noteq> phase s0 then s0\<lparr>phase := p\<rparr> else s0)\<lparr>signals := sigs\<rparr>"
  have ph: "phase ?st2 = p" and sg: "signals ?st2 = sigs" by simp_all
  from assms(2) have "and_then (saveState w ?st2) (\<lambda>_ w'. (w', Inr ?st2)) = (w', Inr st)"
    by (simp add: updateStateFromSignals_def and_then_def l g d Let_def)
  then obtain u where s: "saveState w ?st2 = (w', Inr u)" and st: "st = ?st2"
    by (cases rule: and_then_cases) auto
  have run: "keeps (SaveT w) w w'"
    "node_at w' (cwd w @ [''.workflow'', ''state.json'']) =
       Some (File (StateJson (?st2\<lparr>lastUpdated := clock w\<rparr>)))"
    using saveState_run [OF s] by auto
  have cw: "cwd w' = cwd w" using run(1) by (rule keeps_cwd)
  have ld: "loadState w' = Inr (?st2\<lparr>lastUpdated := clock w\<rparr>)"
    by (rule loadState_document) (use run(2) cw in simp)
  then have a: "persisted_phase w' = Inr p" and a': "persisted_signals w' = Inr sigs"
    by (simp_all add: persisted_phase_def persisted_signals_def)
  have g': "getSignals w' = Inr sigs" using getSignals_saveState [OF s] assms(1) g by simp
  have "determinePhase w' sigs = Inr p" using determinePhase_saveState [OF s] assms(1) d by simp
  then have b: "derived_phase w' = Inr p" by (simp add: derived_phase_def g')
  show ?thesis using ld a a' b g' unfolding st ph sg by simp
qed

lemma getSignals_planned_world: "getSignals planned_world = Inr [(''plan'', True)]"
  by (simp add: planned_world_def world_defs getSignals_def fs_defs js_defs Let_def)

lemma getReviewStatus_planned_world: "getReviewStatus planned_world = Inr PENDING"
  by (simp add: getReviewStatus_def planned_world_def world_defs fs_defs Let_def)

lemma loadState_planned_world: "loadState planned_world = Inr (getInitialState planned_world)"
  by (simp add: loadState_def planned_world_def world_defs fs_defs Let_def)

lemma updateStateFromSignals_planned_world:
  "updateStateFromSignals planned_world = (planned_after, Inr (planned_state\<lparr>lastUpdated := clock planned_world\<rparr>))"
  by (simp add: updateStateFromSignals_def and_then_def getSignals_planned_world loadState_planned_world
        determinePhase_def getReviewStatus_planned_world truthy_def getInitialState_def Let_def)
     (simp add: planned_world_def planned_after_def planned_state_def world_defs
        saveState_def run_defs fs_defs Let_def)

text \<open>Witness for C5 as amended: a project with the plan signal set and no state file.\<close>

theorem updateStateFromSignals_phase_derived_witness:
  "wf_world planned_world \<and>
   updateStateFromSignals planned_world = (planned_after, Inr (planned_state\<lparr>lastUpdated := clock planned_world\<rparr>)) \<and>
   (\<forall>es. readFileSync planned_world (workflowPath planned_world [STATE_FILE]) \<noteq> Inr (TimelineJson es)) \<and>
   loadState planned_after = Inr planned_state \<and>
   persisted_phase planned_after = Inr Implementing \<and>
   derived_phase planned_after = Inr Implementing \<and>
   persisted_signals planned_after = Inr [(''plan'', True)] \<and>
   getSignals planned_after = Inr [(''plan'', True)]"
proof -
  have wf: "wf_world planned_world"
    by (simp add: wf_world_def planned_world_def world_defs node_at_def)
  have nt: "\<forall>es. readFileSync planned_world (workflowPath planned_world [STATE_FILE]) \<noteq>
              Inr (TimelineJson es)"
    by (simp add: planned_world_def world_defs fs_defs)
  show ?thesis
    using updateStateFromSignals_phase_derived [OF wf updateStateFromSignals_planned_world nt] wf
          updateStateFromSignals_planned_world nt
    by (simp add: planned_state_def planned_world_def project_def)
qed

section \<open>What the phase depends on\<close>

lemma existsSync_read: "existsSync w p \<longleftrightarrow> readFileSync w p \<noteq> Inl ENOENT"
  by (auto simp: existsSync_def readFileSync_def split: option.splits node.splits)

lemma getReviewStatus_eq:
  "getReviewStatus w =
     Inr (if \<not> reviewSignalPresent w then PENDING
          else case reviewArtifactText w of Inl e \<Rightarrow> PENDING | Inr t \<Rightarrow> classifyReview t)"
proof -
  obtain sigs where s: "getSignals w = Inr sigs" using getSignals_never_throws by blast
  show ?thesis
    by (auto simp: getReviewStatus_def reviewSignalPresent_def reviewArtifactText_def
          classifyReview_def s Let_def existsSync_read split: sum.splits)
qed

text \<open>
  Claim C6 says that the result of \<open>determinePhase\<close> depends on nothing but the signals it
  is given, the text of the review artifact and the presence of the review signal.
  Counterexample: with no signals and no review artifact, the phase is init without a
  \<open>PLAN.md\<close> and planning with one.
\<close>

theorem determinePhase_outside_input_counterexample:
  "reviewArtifactText (project []) = reviewArtifactText (project [plan_md]) \<and>
   reviewSignalPresent (project []) = reviewSignalPresent (project [plan_md]) \<and>
   determinePhase (project []) [] = Inr Init \<and>
   determinePhase (project [plan_md]) [] = Inr Planning"
proof -
  have a: "reviewArtifactText (project []) = Inl ENOENT"
       "reviewArtifactText (project [plan_md]) = Inl ENOENT"
    by (simp_all add: reviewArtifactText_def plan_md_def world_defs fs_defs)
  have g: "getSignals (project []) = Inr []" "getSignals (project [plan_md]) = Inr []"
    by (simp_all add: plan_md_def world_defs getSignals_def fs_defs js_defs Let_def)
  have b: "\<not> reviewSignalPresent (project [])" "\<not> reviewSignalPresent (project [plan_md])"
    by (simp_all add: reviewSignalPresent_def g truthy_def)
  have r: "getReviewStatus (project []) = Inr PENDING" "getReviewStatus (project [plan_md]) = Inr PENDING"
    using b by (simp_all add: getReviewStatus_eq)
  have p: "\<not> existsSync (project []) (workflowPath (project []) [''PLAN.md''])"
       "existsSync (project [plan_md]) (workflowPath (project [plan_md]) [''PLAN.md''])"
    by (simp_all add: plan_md_def world_defs fs_defs)
  show ?thesis
    using a b by (simp add: determinePhase_def r p truthy_def del: wp_plan)
qed

text \<open>
  Claim C6 as amended: \<open>determinePhase\<close> returns a phase for every input and never throws,
  and the phase is the same in two worlds that agree on the text of the review artifact
  (or the error of reading it), on the presence of the review signal and on the existence
  of \<open>PLAN.md\<close>. The function reads the world and returns no new one.
\<close>

theorem determinePhase_inputs:
  assumes "reviewArtifactText w1 = reviewArtifactText w2"
    and "reviewSignalPresent w1 = reviewSignalPresent w2"
    and "existsSync w1 (workflowPath w1 [''PLAN.md'']) = existsSync w2 (workflowPath w2 [''PLAN.md''])"
  shows "determinePhase w1 sigs = determinePhase w2 sigs \<and> (\<exists>p. determinePhase w1 sigs = Inr p)"
proof -
  have "getReviewStatus w1 = getReviewStatus w2"
    using assms(1,2) by (simp add: getReviewStatus_eq)
  then have "determinePhase w1 sigs = determinePhase w2 sigs"
    using assms(3) unfolding determinePhase_def Let_def by (simp only:)
  then show ?thesis using determinePhase_never_throws [of w1 sigs] by simp
qed

text \<open>Witness for C6 as amended: two projects with the same failed review, which differ in
  their refine signals on disk.\<close>

theorem determinePhase_inputs_witness:
  "reviewArtifactText failed_review_world = reviewArtifactText second_round_world \<and>
   reviewSignalPresent failed_review_world = reviewSignalPresent second_round_world \<and>
   existsSync failed_review_world (workflowPath failed_review_world [''PLAN.md'']) =
     existsSync second_round_world (workflowPath second_round_world [''PLAN.md'']) \<and>
   determinePhase failed_review_world [(''review'', True)] = Inr Refining \<and>
   determinePhase second_round_world [(''review'', True)] = Inr Refining"
proof -
  have a: "reviewArtifactText failed_review_world = Inr ''STATUS: FAIL''"
       "reviewArtifactText second_round_world = Inr ''STATUS: FAIL''"
    by (simp_all add: reviewArtifactText_def failed_review_world_def second_round_world_def
          world_defs fs_defs)
  have b: "reviewSignalPresent failed_review_world" "reviewSignalPresent second_round_world"
    by (simp_all add: reviewSignalPresent_def getSignals_failed_review_world
          getSignals_second_round_world truthy_def)
  have c: "\<not> existsSync failed_review_world (workflowPath failed_review_world [''PLAN.md''])"
       "\<not> existsSync second_round_world (workflowPath second_round_world [''PLAN.md''])"
    by (simp_all add: failed_review_world_def second_round_world_def world_defs fs_defs)
  have d: "determinePhase failed_review_world [(''review'', True)] = Inr Refining"
    by (simp add: determinePhase_def getReviewStatus_failed_review_world truthy_def)
  show ?thesis
    using determinePhase_inputs [of failed_review_world second_round_world "[(''review'', True)]"]
          a b c d
    by simp
qed

section \<open>Loading the state\<close>

text \<open>
  Claim C9: \<open>loadState\<close> never throws, and it returns the initial record (phase init,
  iteration 1, commit count 0, no signals) when the state file does not exist, cannot be
  read or does not parse.
\<close>

theorem loadState_fresh_when_missing_or_corrupt:
  "(\<exists>st. loadState w = Inr st) \<and>
   (\<not> existsSync w (workflowPath w [STATE_FILE]) \<or>
    (\<exists>e. readFileSync w (workflowPath w [STATE_FILE]) = Inl e) \<or>
    (\<exists>t. readFileSync w (workflowPath w [STATE_FILE]) = Inr (Text t))
      \<longrightarrow> loadState w = Inr (getInitialState w)) \<and>
   phase (getInitialState w) = Init \<and> iteration (getInitialState w) = 1 \<and>
   commitCount (getInitialState w) = 0 \<and> signals (getInitialState w) = []"
  by (auto simp: loadState_def parse_state_def getInitialState_def Let_def
           split: sum.splits content.splits)

text \<open>Witness for C9: a state file cut off in the middle of a write, and a project with no
  state file.\<close>

theorem loadState_fresh_when_missing_or_corrupt_witness:
  "readFileSync corrupt_state_world (workflowPath corrupt_state_world [STATE_FILE]) =
     Inr (Text ''{ phase: implem'') \<and>
   loadState corrupt_state_world =
     Inr \<lparr>phase = Init, iteration = 1, featureName = None, branchName = None, commitCount = 0,
          signals = [], lastUpdated = ''2026-02-10T15:00:00.000Z''\<rparr> \<and>
   \<not> existsSync (project []) (workflowPath (project []) [STATE_FILE]) \<and>
   loadState (project []) = Inr (getInitialState (project []))"
proof -
  have a: "readFileSync corrupt_state_world (workflowPath corrupt_state_world [STATE_FILE]) =
             Inr (Text ''{ phase: implem'')"
    by (simp add: corrupt_state_world_def world_defs fs_defs)
  have b: "\<not> existsSync (project []) (workflowPath (project []) [STATE_FILE])"
    by (simp add: world_defs fs_defs)
  have c: "getInitialState corrupt_state_world =
             \<lparr>phase = Init, iteration = 1, featureName = None, branchName = None, commitCount = 0,
              signals = [], lastUpdated = ''2026-02-10T15:00:00.000Z''\<rparr>"
    by (simp add: getInitialState_def corrupt_state_world_def project_def)
  show ?thesis
    using loadState_fresh_when_missing_or_corrupt [of corrupt_state_world]
          loadState_fresh_when_missing_or_corrupt [of "project []"] a b c
    by simp
qed

section \<open>Branch sessions\<close>

lemma loadState_fresh_project: "loadState (project []) = Inr (getInitialState (project []))"
  by (simp add: loadState_def world_defs fs_defs Let_def)

lemma getSignals_fresh_project: "getSignals (project []) = Inr []"
  by (simp add: world_defs getSignals_def fs_defs js_defs Let_def)

lemma saveSessionToBranch_fresh:
  "saveSessionToBranch (project []) ''feature-a'' = (project snapshot_files, Inr ())"
  by (simp add: saveSessionToBranch_def loadState_fresh_project getInitialState_def and_then_def Let_def)
     (simp add: snapshot_files_def fresh_state_def world_defs session_defs run_defs
        getSignals_def fs_defs js_defs Let_def)

lemma createSignal_plan_after_snapshot:
  "createSignal (project snapshot_files) ''plan'' = (project (snapshot_files @ [plan_marker]), Inr ())"
  by (simp add: createSignal_def and_then_def Let_def)
     (simp add: snapshot_files_def plan_marker_def world_defs session_defs run_defs fs_defs)

lemma loadSessionFromBranch_snapshot:
  "loadSessionFromBranch (project (snapshot_files @ [plan_marker])) ''feature-a'' =
     (project restored_files, Inr (Some fresh_state))"
  by (simp add: loadSessionFromBranch_def Let_def)
     (simp add: restored_files_def snapshot_files_def plan_marker_def fresh_state_def world_defs
        session_defs parse_state_def saveState_def run_defs fs_defs Let_def)

lemma getSignals_restored: "getSignals (project restored_files) = Inr [(''plan'', True)]"
  by (simp add: restored_files_def snapshot_files_def plan_marker_def world_defs getSignals_def
        fs_defs js_defs Let_def)

text \<open>
  Claim C7 says that a restore replaces the live signals by those of the snapshot. The code
  clears and recreates the live signals only when the snapshot has a signals directory,
  and \<open>saveSessionToBranch\<close> creates that directory only when there are signals. A snapshot
  of a session without signals is saved for branch feature-a; the plan signal is then set;
  the restore of feature-a returns the saved state, which lists no signals, and leaves the
  plan signal in place.
\<close>

theorem loadSessionFromBranch_keeps_live_signals:
  "getSignals (project []) = Inr [] \<and>
   saveSessionToBranch (project []) ''feature-a'' = (project snapshot_files, Inr ()) \<and>
   createSignal (project snapshot_files) ''plan'' = (project (snapshot_files @ [plan_marker]), Inr ()) \<and>
   loadSessionFromBranch (project (snapshot_files @ [plan_marker])) ''feature-a'' =
     (project restored_files, Inr (Some fresh_state)) \<and>
   signals fresh_state = [] \<and>
   getSignals (project restored_files) = Inr [(''plan'', True)]"
  by (simp add: getSignals_fresh_project saveSessionToBranch_fresh createSignal_plan_after_snapshot
        loadSessionFromBranch_snapshot getSignals_restored)
     (simp add: fresh_state_def)

text \<open>Where the snapshot has a signals directory the restore does replace the live signals:
  the backend signal on disk is gone after the restore, the plan signal of the snapshot is
  set.\<close>

lemma loadSessionFromBranch_replaces:
  "getSignals (project snapshot_with_plan) = Inr [(''backend'', True)] \<and>
   snd (loadSessionFromBranch (project snapshot_with_plan) ''feature-a'') = Inr (Some fresh_state) \<and>
   getSignals (fst (loadSessionFromBranch (project snapshot_with_plan) ''feature-a'')) =
     Inr [(''plan'', True)]"
proof -
  have a: "getSignals (project snapshot_with_plan) = Inr [(''backend'', True)]"
    by (simp add: snapshot_with_plan_def world_defs getSignals_def fs_defs js_defs Let_def)
  have b: "files (fst (loadSessionFromBranch (project snapshot_with_plan) ''feature-a'')) =
             project_files @
             [([''proj'', ''.workflow'', ''sessions''], Dir),
              ([''proj'', ''.workflow'', ''sessions'', ''feature-a''], Dir),
              ([''proj'', ''.workflow'', ''sessions'', ''feature-a'', ''state.json''], File (StateJson fresh_state)),
              ([''proj'', ''.workflow'', ''sessions'', ''feature-a'', ''signals''], Dir),
              ([''proj'', ''.workflow'', ''sessions'', ''feature-a'', ''signals'', ''plan.done''],
               File (Text ''2026-02-10T14:00:00.000Z'')),
              ([''proj'', ''.workflow'', ''state.json''], File (StateJson fresh_state)),
              ([''proj'', ''.workflow'', ''signals'', ''plan.done''], File (Text ''2026-02-10T15:00:00.000Z''))] \<and>
           cwd (fst (loadSessionFromBranch (project snapshot_with_plan) ''feature-a'')) = [''proj''] \<and>
           snd (loadSessionFromBranch (project snapshot_with_plan) ''feature-a'') = Inr (Some fresh_state)"
    by (simp add: loadSessionFromBranch_def Let_def)
       (simp add: snapshot_with_plan_def fresh_state_def world_defs session_defs parse_state_def
          saveState_def clearAllSignals_def createSignal_def run_defs fs_defs js_defs Let_def)
  have c: "getSignals (fst (loadSessionFromBranch (project snapshot_with_plan) ''feature-a'')) =
             Inr [(''plan'', True)]"
    using b by (simp add: getSignals_def fs_defs js_defs project_files_def Let_def)
  show ?thesis using a b c by simp
qed

section \<open>Signal names\<close>

text \<open>
  Claim C10 says that a signal created under any name is read back under that name. The
  marker of the name \<open>a.doneb\<close> is the file \<open>a.doneb.done\<close>; \<open>getSignals\<close> removes the first
  \<open>.done\<close> of the file name, not the one at its end, and reads the signal \<open>ab.done\<close>.
\<close>

theorem createSignal_name_not_read_back:
  "createSignal (project []) ''a.doneb'' = (project [inner_done_marker], Inr ()) \<and>
   getSignals (project [inner_done_marker]) = Inr [(''ab.done'', True)] \<and>
   \<not> truthy [(''ab.done'', True)] ''a.doneb''"
proof -
  have "createSignal (project []) ''a.doneb'' = (project [inner_done_marker], Inr ())"
    by (simp add: createSignal_def and_then_def Let_def)
       (simp add: inner_done_marker_def world_defs session_defs run_defs fs_defs)
  moreover have "getSignals (project [inner_done_marker]) = Inr [(''ab.done'', True)]"
    by (simp add: inner_done_marker_def world_defs getSignals_def fs_defs js_defs Let_def)
  ultimately show ?thesis by (simp add: truthy_def)
qed

end
